theory Spec2Isabelle
  imports Main
begin

section \<open>Model identifiers and the fallback order (ModelFallback)\<close>

text \<open>
  The type \<open>AIModel\<close> of ai-service.ts: a union of nine string literals, in the order of
  its declaration.
\<close>

datatype AIModel =
    V0 | GPT4 | GPT4Turbo | GPT35Turbo | O3Mini
  | Claude3Opus | Claude3Sonnet | Claude3Haiku | ClaudeSonnet4

text \<open>The static list \<open>ModelFallback.fallbackOrder\<close>: seven of the nine models.\<close>

definition fallbackOrder :: "AIModel list" where
  "fallbackOrder = [V0, GPT4Turbo, ClaudeSonnet4, GPT4, Claude3Sonnet, O3Mini, Claude3Haiku]"

text \<open>\<open>Array.prototype.indexOf\<close>: the first position of the element, \<open>-1\<close> when absent.\<close>

fun indexOf :: "'a list \<Rightarrow> 'a \<Rightarrow> int" where
  "indexOf [] x = - 1"
| "indexOf (y # ys) x =
     (if y = x then 0
      else (let r = indexOf ys x in if r < 0 then - 1 else r + 1))"

text \<open>
  Both loops of \<open>getNextModel\<close> have the shape
  \<^verbatim>\<open>for (let i = lo; i < hi; i++) { const nextModel = order[i];
       if (availableModels.includes(nextModel)) return nextModel }\<close>
  and fall through (here: \<open>None\<close>) when no position qualifies.
\<close>

function scanOrder :: "AIModel list \<Rightarrow> int \<Rightarrow> int \<Rightarrow> AIModel list \<Rightarrow> AIModel option" where
  "scanOrder order i hi availableModels =
     (if i < hi then
        (let nextModel = order ! nat i in
         if nextModel \<in> set availableModels then Some nextModel
         else scanOrder order (i + 1) hi availableModels)
      else None)"
  by pat_completeness auto
termination
  by (relation "measure (\<lambda>(order, i, hi, availableModels). nat (hi - i))") auto

declare scanOrder.simps [simp del]

definition getNextModel :: "AIModel \<Rightarrow> AIModel list \<Rightarrow> AIModel option" where
  "getNextModel currentModel availableModels =
     (let currentIndex = indexOf fallbackOrder currentModel in
      case scanOrder fallbackOrder (currentIndex + 1) (int (length fallbackOrder)) availableModels of
        Some m \<Rightarrow> Some m
      | None \<Rightarrow> scanOrder fallbackOrder 0 currentIndex availableModels)"

text \<open>
  The operation as the specification words it: the models strictly after the current one in
  the priority order, then (wrapping around) those strictly before it.
\<close>

definition modelsAfter :: "AIModel \<Rightarrow> AIModel list" where
  "modelsAfter currentModel = drop 1 (dropWhile (\<lambda>m. m \<noteq> currentModel) fallbackOrder)"

definition modelsBefore :: "AIModel \<Rightarrow> AIModel list" where
  "modelsBefore currentModel = takeWhile (\<lambda>m. m \<noteq> currentModel) fallbackOrder"

definition nextFallback_spec :: "AIModel \<Rightarrow> AIModel list \<Rightarrow> AIModel option" where
  "nextFallback_spec currentModel availableModels =
     (case find (\<lambda>m. m \<in> set availableModels) (modelsAfter currentModel) of
        Some m \<Rightarrow> Some m
      | None \<Rightarrow> find (\<lambda>m. m \<in> set availableModels) (modelsBefore currentModel))"

section \<open>Rendering numbers in messages\<close>

text \<open>
  A template literal \<^verbatim>\<open>${n}\<close> renders an integral number in decimal, with a leading
  minus sign when it is negative.
\<close>

definition digit :: "nat \<Rightarrow> char" where
  "digit d = ''0123456789'' ! (d mod 10)"

function show_nat :: "nat \<Rightarrow> string" where
  "show_nat n = (if n < 10 then [digit n] else show_nat (n div 10) @ [digit (n mod 10)])"
  by pat_completeness auto
termination
  by (relation "measure (\<lambda>n. n)") auto

declare show_nat.simps [simp del]

definition show_int :: "int \<Rightarrow> string" where
  "show_int i = (if i < 0 then ''-'' @ show_nat (nat (- i)) else show_nat (nat i))"

section \<open>Screenshot capture with retries (EnhancedScreenshotCapture)\<close>

datatype PuppeteerLifeCycleEvent = Load | DomContentLoaded | NetworkIdle0 | NetworkIdle2

text \<open>The field \<open>waitUntil\<close> holds one life-cycle event or an array of them.\<close>

datatype WaitUntil = One PuppeteerLifeCycleEvent | Several "PuppeteerLifeCycleEvent list"

record RetryStrategy =
  name :: string
  waitTime :: int
  browserArgs :: "string list option"
  waitUntil :: "WaitUntil option"

text \<open>
  The repository holds two versions of the capture module with the same retry loop and
  different strategy tables. The first table:
\<close>

definition DEFAULT_RETRY_STRATEGIES :: "RetryStrategy list" where
  "DEFAULT_RETRY_STRATEGIES =
     [\<lparr>name = ''Standard'', waitTime = 2000, browserArgs = None,
        waitUntil = Some (One NetworkIdle0)\<rparr>,
      \<lparr>name = ''Dynamic Content'', waitTime = 5000, browserArgs = None,
        waitUntil = Some (One DomContentLoaded)\<rparr>,
      \<lparr>name = ''SPA Mode'', waitTime = 8000, browserArgs = None,
        waitUntil = Some (One NetworkIdle2)\<rparr>,
      \<lparr>name = ''Force Load'', waitTime = 3000, browserArgs = None,
        waitUntil = Some (One Load)\<rparr>]"

text \<open>The table of the second version (Standard, Quick DOM, Extended Wait, Minimal):\<close>

definition DEFAULT_RETRY_STRATEGIES_2 :: "RetryStrategy list" where
  "DEFAULT_RETRY_STRATEGIES_2 =
     [\<lparr>name = ''Standard'', waitTime = 2000, browserArgs = None,
        waitUntil = Some (One NetworkIdle0)\<rparr>,
      \<lparr>name = ''Quick DOM'', waitTime = 5000, browserArgs = None,
        waitUntil = Some (One DomContentLoaded)\<rparr>,
      \<lparr>name = ''Extended Wait'', waitTime = 10000, browserArgs = None,
        waitUntil = Some (Several [DomContentLoaded, NetworkIdle2])\<rparr>,
      \<lparr>name = ''Minimal'', waitTime = 3000,
        browserArgs = Some [''--disable-images'', ''--disable-javascript''],
        waitUntil = Some (One Load)\<rparr>]"

text \<open>
  \<^verbatim>\<open>strategies[Math.min(attempt, strategies.length - 1)]\<close>: an index outside the
  array reads \<open>undefined\<close> (here \<open>None\<close>); that happens for an empty table only.
\<close>

definition selectStrategy :: "RetryStrategy list \<Rightarrow> int \<Rightarrow> RetryStrategy option" where
  "selectStrategy strategies attempt =
     (let i = min attempt (int (length strategies) - 1)
      in if 0 \<le> i \<and> i < int (length strategies) then Some (strategies ! nat i) else None)"

text \<open>
  What a run of the loop does, in order: a call of \<open>captureScreenshot\<close> (attempt index and
  strategy), or a back-off sleep of so many milliseconds.
\<close>

datatype CaptureEvent = Attempt int RetryStrategy | Backoff int

text \<open>
  \<open>captureScreenshot\<close> drives the browser; its outcome is a parameter of the model: for the
  attempt index and the strategy it is called with, the message of the error it throws
  (\<open>Inl\<close>) or the image path it returns (\<open>Inr\<close>). Console output and the optional
  \<open>onProgress\<close> callback are not modelled (the callback is taken not to throw).
\<close>

type_synonym CaptureScreenshot = "int \<Rightarrow> RetryStrategy \<Rightarrow> string + string"

definition failureMessage :: "int \<Rightarrow> string option \<Rightarrow> string" where
  "failureMessage retries lastError =
     ''Failed to capture screenshot after '' @ show_int (retries + 1) @
     '' attempts. Last error: '' @ (case lastError of None \<Rightarrow> ''undefined'' | Some m \<Rightarrow> m)"

text \<open>
  The \<open>for\<close> loop of \<open>captureWithRetry\<close>, from the attempt index it has reached, with the
  last error and the events so far. Reading \<open>strategy.name\<close> of an undefined strategy
  throws inside the \<open>try\<close> block, before \<open>captureScreenshot\<close> is called.
\<close>

function retryLoop ::
  "RetryStrategy list \<Rightarrow> CaptureScreenshot \<Rightarrow> int \<Rightarrow> int \<Rightarrow> string option \<Rightarrow>
   CaptureEvent list \<Rightarrow> (string + string) \<times> CaptureEvent list" where
  "retryLoop strategies captureScreenshot retries attempt lastError events =
     (if attempt \<le> retries then
        (let outcome =
               (case selectStrategy strategies attempt of
                  None \<Rightarrow> (Inl ''Cannot read properties of undefined (reading 'name')'', events)
                | Some strategy \<Rightarrow>
                    (captureScreenshot attempt strategy, events @ [Attempt attempt strategy]))
         in case fst outcome of
              Inr result \<Rightarrow> (Inr result, snd outcome)
            | Inl message \<Rightarrow>
                retryLoop strategies captureScreenshot retries (attempt + 1) (Some message)
                  (if attempt < retries
                   then snd outcome @ [Backoff ((attempt + 1) * 2000)]
                   else snd outcome))
      else (Inl (failureMessage retries lastError), events))"
  by pat_completeness auto
termination
  by (relation "measure (\<lambda>(strategies, captureScreenshot, retries, attempt, lastError, events).
        nat (retries + 1 - attempt))") auto

declare retryLoop.simps [simp del]

text \<open>\<open>retries\<close> defaults to 3 when the options do not give it.\<close>

definition captureWithRetry_on ::
  "RetryStrategy list \<Rightarrow> CaptureScreenshot \<Rightarrow> int option \<Rightarrow>
   (string + string) \<times> CaptureEvent list" where
  "captureWithRetry_on strategies captureScreenshot retriesOpt =
     (let retries = (case retriesOpt of None \<Rightarrow> 3 | Some r \<Rightarrow> r)
      in retryLoop strategies captureScreenshot retries 0 None [])"

definition captureWithRetry ::
  "CaptureScreenshot \<Rightarrow> int option \<Rightarrow> (string + string) \<times> CaptureEvent list" where
  "captureWithRetry = captureWithRetry_on DEFAULT_RETRY_STRATEGIES"

definition captureWithRetry_2 ::
  "CaptureScreenshot \<Rightarrow> int option \<Rightarrow> (string + string) \<times> CaptureEvent list" where
  "captureWithRetry_2 = captureWithRetry_on DEFAULT_RETRY_STRATEGIES_2"

text \<open>The attempts among the events: attempt index and strategy, in order.\<close>

fun attemptsOf :: "CaptureEvent list \<Rightarrow> (int \<times> RetryStrategy) list" where
  "attemptsOf [] = []"
| "attemptsOf (Attempt i s # evs) = (i, s) # attemptsOf evs"
| "attemptsOf (Backoff w # evs) = attemptsOf evs"

text \<open>
  The selection as the specification words it: \<open>strategies[min(i, strategies.length - 1)]\<close>
  for an attempt index \<open>i \<ge> 0\<close>.
\<close>

definition strategyAt :: "RetryStrategy list \<Rightarrow> int \<Rightarrow> RetryStrategy" where
  "strategyAt strategies i = strategies ! min (nat i) (length strategies - 1)"

section \<open>Request quotas (RateLimiter)\<close>

datatype Service = SvcV0 | SvcOpenAI | SvcAnthropic

record ServiceQuota =
  count :: int
  resetAt :: int

text \<open>
  \<open>RateLimitData\<close> has one entry per service; \<open>data[service]\<close> is function application
  and an assignment to a field of \<open>data[service]\<close> is a function update.
\<close>

type_synonym RateLimitData = "Service \<Rightarrow> ServiceQuota"

record Limit =
  daily :: int
  window :: int

fun limits :: "Service \<Rightarrow> Limit" where
  "limits SvcV0 = \<lparr>daily = 200, window = 24 * 60 * 60 * 1000\<rparr>"
| "limits SvcOpenAI = \<lparr>daily = 10000, window = 60 * 1000\<rparr>"
| "limits SvcAnthropic = \<lparr>daily = 1000, window = 60 * 1000\<rparr>"

text \<open>
  The file \<open>rate-limits.json\<close>: absent, or holding text that is no JSON, or holding the
  JSON of quota data (a parsed file is taken to have the shape of \<open>RateLimitData\<close>, as
  the code's type annotation does). Writing the file is assumed to succeed.
\<close>

datatype FileContent = Garbage | Json RateLimitData

type_synonym QuotaFile = "FileContent option"

datatype IOError = ENOENT | SyntaxError

definition readFile :: "QuotaFile \<Rightarrow> IOError + FileContent" where
  "readFile file = (case file of None \<Rightarrow> Inl ENOENT | Some content \<Rightarrow> Inr content)"

definition JSON_parse :: "FileContent \<Rightarrow> IOError + RateLimitData" where
  "JSON_parse content = (case content of Garbage \<Rightarrow> Inl SyntaxError | Json obj \<Rightarrow> Inr obj)"

text \<open>
  \<open>loadData\<close>: the \<open>catch\<close> block swallows both errors and answers with empty data whose
  windows start at the clock reading \<open>now\<close> taken inside the block.
\<close>

definition emptyData :: "int \<Rightarrow> RateLimitData" where
  "emptyData now = (\<lambda>service. \<lparr>count = 0, resetAt = now + window (limits service)\<rparr>)"

definition loadData :: "int \<Rightarrow> QuotaFile \<Rightarrow> RateLimitData" where
  "loadData now file =
     (case readFile file of
        Inl e \<Rightarrow> emptyData now
      | Inr content \<Rightarrow>
          (case JSON_parse content of
             Inl e \<Rightarrow> emptyData now
           | Inr obj \<Rightarrow> obj))"

definition saveData :: "RateLimitData \<Rightarrow> QuotaFile" where
  "saveData data = Some (Json data)"

text \<open>\<open>Math.ceil(a / b)\<close> for integers \<open>a\<close> and a positive integer \<open>b\<close>.\<close>

definition ceilDiv :: "int \<Rightarrow> int \<Rightarrow> int" where
  "ceilDiv a b = - ((- a) div b)"

record LimitResult =
  allowed :: bool
  remaining :: int
  resetIn :: "int option"

text \<open>
  \<open>checkLimit\<close> reads the clock twice: \<open>loadNow\<close> inside \<open>loadData\<close> (used only when the
  file cannot be loaded), then \<open>now\<close>. It returns its answer and the file it leaves.
\<close>

definition checkLimit :: "Service \<Rightarrow> int \<Rightarrow> int \<Rightarrow> QuotaFile \<Rightarrow> LimitResult \<times> QuotaFile" where
  "checkLimit service loadNow now file =
     (let data = loadData loadNow file;
          serviceData = data service;
          expired = now > resetAt serviceData;
          serviceData = (if expired
                         then \<lparr>count = 0, resetAt = now + window (limits service)\<rparr>
                         else serviceData);
          file = (if expired then saveData (data(service := serviceData)) else file);
          limit = daily (limits service);
          remaining = max 0 (limit - count serviceData);
          allowed = remaining > 0
      in (\<lparr>allowed = allowed, remaining = remaining,
           resetIn = (if allowed then None
                      else Some (ceilDiv (resetAt serviceData - now) 1000))\<rparr>,
          file))"

definition increment :: "Service \<Rightarrow> int \<Rightarrow> QuotaFile \<Rightarrow> QuotaFile" where
  "increment service loadNow file =
     (let data = loadData loadNow file
      in saveData (data(service := (data service)\<lparr>count := count (data service) + 1\<rparr>)))"

definition getRemainingQuota :: "Service \<Rightarrow> int \<Rightarrow> int \<Rightarrow> QuotaFile \<Rightarrow> int \<times> QuotaFile" where
  "getRemainingQuota service loadNow now file =
     (case checkLimit service loadNow now file of (r, file') \<Rightarrow> (remaining r, file'))"

definition formatResetTime :: "int \<Rightarrow> string" where
  "formatResetTime seconds =
     (if seconds < 60 then show_int seconds @ ''s''
      else if seconds < 3600 then show_int (ceilDiv seconds 60) @ ''m''
      else show_int (ceilDiv seconds 3600) @ ''h'')"

section \<open>Dispatch to a backend (MultiModelAIService.chat)\<close>

datatype Role = System | User | Assistant

record ChatMessage =
  role :: Role
  content :: string
  imageUrl :: "string option"

datatype Device = Desktop | Mobile

record PromptVariables =
  url :: "string option"
  image_path :: "string option"
  extraContext :: "string option"
  device :: "Device option"
  modelName :: "AIModel option"
  deep_dive :: "bool option"
  extract_styles :: "bool option"
  grid_size :: "int option"
  batch_id :: "string option"

text \<open>
  The options \<open>chat\<close> itself reads; \<open>temperature\<close> and \<open>maxTokens\<close> only travel to the
  backend, whose outcome is a parameter here.
\<close>

record ChatOptions =
  optModel :: "AIModel option"
  systemPrompt :: "string option"
  promptVariables :: "PromptVariables option"

text \<open>
  The three prompt templates of \<open>SystemPrompts\<close> are parameters; \<open>getPromptForModel\<close>
  chooses among them (models without a case of their own get the OpenAI prompt).
\<close>

record SystemPrompts =
  getOpenAIPrompt :: "PromptVariables \<Rightarrow> string"
  getClaudePrompt :: "PromptVariables \<Rightarrow> string"
  getV0Prompt :: "PromptVariables \<Rightarrow> string"

fun getPromptForModel :: "SystemPrompts \<Rightarrow> AIModel \<Rightarrow> PromptVariables \<Rightarrow> string" where
  "getPromptForModel sp GPT4 variables = getOpenAIPrompt sp variables"
| "getPromptForModel sp GPT4Turbo variables = getOpenAIPrompt sp variables"
| "getPromptForModel sp GPT35Turbo variables = getOpenAIPrompt sp variables"
| "getPromptForModel sp Claude3Opus variables = getClaudePrompt sp variables"
| "getPromptForModel sp Claude3Sonnet variables = getClaudePrompt sp variables"
| "getPromptForModel sp Claude3Haiku variables = getClaudePrompt sp variables"
| "getPromptForModel sp V0 variables = getV0Prompt sp variables"
| "getPromptForModel sp O3Mini variables = getOpenAIPrompt sp variables"
| "getPromptForModel sp ClaudeSonnet4 variables = getOpenAIPrompt sp variables"

fun getServiceForModel :: "AIModel \<Rightarrow> Service" where
  "getServiceForModel V0 = SvcV0"
| "getServiceForModel GPT4 = SvcOpenAI"
| "getServiceForModel GPT4Turbo = SvcOpenAI"
| "getServiceForModel GPT35Turbo = SvcOpenAI"
| "getServiceForModel O3Mini = SvcOpenAI"
| "getServiceForModel Claude3Opus = SvcAnthropic"
| "getServiceForModel Claude3Sonnet = SvcAnthropic"
| "getServiceForModel Claude3Haiku = SvcAnthropic"
| "getServiceForModel ClaudeSonnet4 = SvcAnthropic"

fun serviceName :: "Service \<Rightarrow> string" where
  "serviceName SvcV0 = ''v0''"
| "serviceName SvcOpenAI = ''openai''"
| "serviceName SvcAnthropic = ''anthropic''"

text \<open>
  A backend (\<open>chatWithV0\<close>, \<open>chatWithOpenAI\<close>, \<open>chatWithClaude\<close>) takes the messages and the
  options and throws an error (\<open>Inl\<close>, its message) or returns the response text (\<open>Inr\<close>).
\<close>

type_synonym Backend = "ChatMessage list \<Rightarrow> ChatOptions \<Rightarrow> string + string"

record AIService =
  defaultModel :: AIModel
  prompts :: SystemPrompts
  chatWithV0 :: Backend
  chatWithOpenAI :: Backend
  chatWithClaude :: Backend

text \<open>The \<open>switch\<close> of \<open>chat\<close> over the model.\<close>

fun backendFor :: "AIService \<Rightarrow> AIModel \<Rightarrow> Backend" where
  "backendFor svc V0 = chatWithV0 svc"
| "backendFor svc GPT4 = chatWithOpenAI svc"
| "backendFor svc GPT4Turbo = chatWithOpenAI svc"
| "backendFor svc GPT35Turbo = chatWithOpenAI svc"
| "backendFor svc O3Mini = chatWithOpenAI svc"
| "backendFor svc Claude3Opus = chatWithClaude svc"
| "backendFor svc Claude3Sonnet = chatWithClaude svc"
| "backendFor svc Claude3Haiku = chatWithClaude svc"
| "backendFor svc ClaudeSonnet4 = chatWithClaude svc"

text \<open>
  Lines 85 to 92 of ai-service.ts: with prompt variables and no (non-empty) literal system
  prompt, the system messages are filtered out and a system prompt for the model is put
  in front.
\<close>

definition truthy :: "string option \<Rightarrow> bool" where
  "truthy s = (case s of None \<Rightarrow> False | Some str \<Rightarrow> str \<noteq> [])"

definition addSystemPrompt ::
  "SystemPrompts \<Rightarrow> AIModel \<Rightarrow> ChatOptions \<Rightarrow> ChatMessage list \<Rightarrow> ChatMessage list" where
  "addSystemPrompt sp model options messages =
     (case promptVariables options of
        Some variables \<Rightarrow>
          (if \<not> truthy (systemPrompt options) then
             \<lparr>role = System, content = getPromptForModel sp model variables, imageUrl = None\<rparr>
               # filter (\<lambda>m. role m \<noteq> System) messages
           else messages)
      | None \<Rightarrow> messages)"

text \<open>The clock readings of one call of \<open>chat\<close>, in the order they are taken.\<close>

record Times =
  checkLoadNow :: int
  checkNow :: int
  incrementLoadNow :: int

text \<open>
  What a call of \<open>chat\<close> leaves: the error thrown or the text returned, the quota file, and
  the message sequences handed to a backend (none or one). Logging is not modelled. The
  \<open>default\<close> branch of the \<open>switch\<close> is unreachable for a value of type \<open>AIModel\<close>, and
  \<open>resetIn\<close> is always present when \<open>allowed\<close> is false.
\<close>

record ChatRun =
  outcome :: "string + string"
  quotaFile :: QuotaFile
  sent :: "ChatMessage list list"

definition rateLimitMessage :: "Service \<Rightarrow> int \<Rightarrow> string" where
  "rateLimitMessage service seconds =
     ''Rate limit exceeded for '' @ serviceName service @ ''. Resets in '' @
     formatResetTime seconds @ ''. Consider using a different model.''"

definition chat :: "AIService \<Rightarrow> Times \<Rightarrow> QuotaFile \<Rightarrow> ChatMessage list \<Rightarrow> ChatOptions \<Rightarrow> ChatRun" where
  "chat svc clock file messages options =
     (let model = (case optModel options of Some m \<Rightarrow> m | None \<Rightarrow> defaultModel svc);
          service = getServiceForModel model;
          (limit, file) = checkLimit service (checkLoadNow clock) (checkNow clock) file
      in if \<not> allowed limit then
           \<lparr>outcome = Inl (rateLimitMessage service (case resetIn limit of Some s \<Rightarrow> s | None \<Rightarrow> 0)),
            quotaFile = file, sent = []\<rparr>
         else
           (let messages = addSystemPrompt (prompts svc) model options messages
            in case backendFor svc model messages options of
                 Inl error \<Rightarrow> \<lparr>outcome = Inl error, quotaFile = file, sent = [messages]\<rparr>
               | Inr result \<Rightarrow>
                   \<lparr>outcome = Inr result,
                    quotaFile = increment service (incrementLoadNow clock) file,
                    sent = [messages]\<rparr>))"

text \<open>
  The requests that touch the quota file: a quota query (\<open>checkLimit\<close>, also behind
  \<open>getRemainingQuota\<close>) and a dispatch. \<open>increment\<close> has no caller but \<open>chat\<close>.
\<close>

datatype Request =
    Query Service int int
  | Dispatch AIService Times "ChatMessage list" ChatOptions

fun serve :: "QuotaFile \<Rightarrow> Request \<Rightarrow> QuotaFile" where
  "serve file (Query service loadNow now) = snd (checkLimit service loadNow now file)"
| "serve file (Dispatch svc clock messages options) =
     quotaFile (chat svc clock file messages options)"

text \<open>The invariant of the quota file: every stored count is within its service's cap.\<close>

definition withinCaps :: "QuotaFile \<Rightarrow> bool" where
  "withinCaps file =
     (case file of
        Some (Json data) \<Rightarrow>
          count (data SvcV0) \<le> daily (limits SvcV0) \<and>
          count (data SvcOpenAI) \<le> daily (limits SvcOpenAI) \<and>
          count (data SvcAnthropic) \<le> daily (limits SvcAnthropic)
      | _ \<Rightarrow> True)"

section \<open>Properties of the fallback order\<close>

lemma indexOf_absent: "x \<notin> set xs \<Longrightarrow> indexOf xs x = - 1"
  by (induction xs) (auto simp: Let_def)

lemma indexOf_present:
  "x \<in> set xs \<Longrightarrow> indexOf xs x = int (length (takeWhile (\<lambda>y. y \<noteq> x) xs))"
  by (induction xs) (auto simp: Let_def indexOf_absent)

lemma scanOrder_find:
  "0 \<le> i \<Longrightarrow> hi \<le> int (length order) \<Longrightarrow>
   scanOrder order i hi avail =
     find (\<lambda>m. m \<in> set avail) (take (nat hi - nat i) (drop (nat i) order))"
proof (induction order i hi avail rule: scanOrder.induct)
  case (1 order i hi avail)
  show ?case
  proof (cases "i < hi")
    case False
    then show ?thesis by (simp add: scanOrder.simps)
  next
    case True
    with "1.prems" have lt: "nat i < length order" by linarith
    have d: "drop (nat i) order = order ! nat i # drop (nat (i + 1)) order"
      using lt "1.prems"(1) by (simp add: Cons_nth_drop_Suc nat_add_distrib)
    have k: "nat hi - nat i = Suc (nat hi - nat (i + 1))"
      using True "1.prems"(1) by linarith
    show ?thesis
    proof (cases "order ! nat i \<in> set avail")
      case True
      with \<open>i < hi\<close> show ?thesis
        by (subst scanOrder.simps) (simp add: d k)
    next
      case False
      have "scanOrder order i hi avail = scanOrder order (i + 1) hi avail"
        using False \<open>i < hi\<close> by (subst scanOrder.simps) simp
      also have "\<dots> = find (\<lambda>m. m \<in> set avail) (take (nat hi - nat (i + 1)) (drop (nat (i + 1)) order))"
        using "1.IH"[OF \<open>i < hi\<close> refl False] "1.prems" by simp
      finally show ?thesis using False by (simp add: d k)
    qed
  qed
qed

lemma scanOrder_empty: "hi \<le> i \<Longrightarrow> scanOrder order i hi avail = None"
  by (simp add: scanOrder.simps)

lemma after_before_set:
  "set (modelsAfter c) \<union> set (modelsBefore c) = set fallbackOrder - {c}"
  by (cases c) (auto simp: modelsAfter_def modelsBefore_def fallbackOrder_def)

lemma before_current_after:
  "c \<in> set fallbackOrder \<Longrightarrow> fallbackOrder = modelsBefore c @ c # modelsAfter c"
  by (cases c) (auto simp: modelsAfter_def modelsBefore_def fallbackOrder_def)

lemma getNextModel_refines: "getNextModel c avail = nextFallback_spec c avail"
proof (cases "c \<in> set fallbackOrder")
  case True
  define k where "k = length (takeWhile (\<lambda>m. m \<noteq> c) fallbackOrder)"
  have idx: "indexOf fallbackOrder c = int k"
    using True by (simp add: indexOf_present k_def)
  have kle: "k \<le> length fallbackOrder"
    unfolding k_def by (rule length_takeWhile_le)
  have klt: "k < length fallbackOrder"
  proof -
    have "takeWhile (\<lambda>m. m \<noteq> c) fallbackOrder \<noteq> fallbackOrder"
      using True by (simp add: takeWhile_eq_all_conv)
    then have "k \<noteq> length fallbackOrder"
      unfolding k_def by (metis takeWhile_eq_take take_all order_refl)
    with kle show ?thesis by simp
  qed
  have a: "scanOrder fallbackOrder (int k + 1) (int (length fallbackOrder)) avail
            = find (\<lambda>m. m \<in> set avail) (modelsAfter c)"
    using klt by (simp add: scanOrder_find modelsAfter_def dropWhile_eq_drop k_def nat_add_distrib)
  have b: "scanOrder fallbackOrder 0 (int k) avail
            = find (\<lambda>m. m \<in> set avail) (modelsBefore c)"
    using kle by (simp add: scanOrder_find modelsBefore_def k_def takeWhile_eq_take[symmetric])
  show ?thesis
    by (simp add: getNextModel_def nextFallback_spec_def idx a b split: option.splits)
next
  case False
  have idx: "indexOf fallbackOrder c = - 1"
    using False by (simp add: indexOf_absent)
  have a: "scanOrder fallbackOrder 0 (int (length fallbackOrder)) avail
            = find (\<lambda>m. m \<in> set avail) fallbackOrder"
    by (simp add: scanOrder_find)
  have tw: "takeWhile (\<lambda>m. m \<noteq> c) fallbackOrder = fallbackOrder"
    using False by (auto intro: takeWhile_eq_all_conv[THEN iffD2])
  have dw: "dropWhile (\<lambda>m. m \<noteq> c) fallbackOrder = []"
    using False by auto
  show ?thesis
    by (simp add: getNextModel_def nextFallback_spec_def idx a scanOrder_empty
        modelsAfter_def modelsBefore_def tw dw split: option.splits)
qed

lemma find_None_set: "find P xs = None \<longleftrightarrow> (\<forall>x\<in>set xs. \<not> P x)"
  by (induction xs) auto

lemma find_Some_set: "find P xs = Some x \<Longrightarrow> x \<in> set xs \<and> P x"
  by (induction xs) (auto split: if_splits)

lemma nextFallback_spec_Some:
  assumes "nextFallback_spec c avail = Some m"
  shows "m \<in> set avail \<and> m \<noteq> c \<and> m \<in> set fallbackOrder"
proof -
  from assms have "m \<in> set (modelsAfter c) \<union> set (modelsBefore c) \<and> m \<in> set avail"
    by (auto simp: nextFallback_spec_def split: option.splits dest: find_Some_set)
  then show ?thesis by (simp add: after_before_set)
qed

lemma nextFallback_spec_None:
  "nextFallback_spec c avail = None \<longleftrightarrow>
     (\<forall>m\<in>set fallbackOrder. m \<in> set avail \<longrightarrow> m = c)"
proof -
  have "nextFallback_spec c avail = None \<longleftrightarrow>
        (\<forall>m\<in>set (modelsAfter c) \<union> set (modelsBefore c). m \<notin> set avail)"
    by (auto simp: nextFallback_spec_def find_None_set split: option.splits dest: find_Some_set)
  then show ?thesis by (auto simp: after_before_set)
qed

text \<open>
  Claim C1, as the specification states it, fails: \<open>gpt-3.5-turbo\<close> (like
  \<open>claude-3-opus\<close>) is a model of type \<open>AIModel\<close> that the fallback order does not
  list, so an availability set holding only such models is non-empty, differs from
  \<open>{current}\<close>, and still yields no fallback.
\<close>

theorem getNextModel_not_total_counterexample:
  "set [GPT35Turbo] \<noteq> {} \<and> set [GPT35Turbo] \<noteq> {V0} \<and> getNextModel V0 [GPT35Turbo] = None"
  by (simp add: getNextModel_def fallbackOrder_def scanOrder.simps)

text \<open>
  Claim C1, amended: whenever \<open>availableModels\<close> holds a model of the fallback order other
  than \<open>currentModel\<close>, \<open>getNextModel\<close> returns some model that is in
  \<open>availableModels\<close>, in the fallback order and different from \<open>currentModel\<close>; whenever it
  holds none (in particular when it is empty or equal to \<open>{currentModel}\<close>), the result is
  none.
\<close>

theorem getNextModel_fallback_total:
  "((\<exists>m. m \<in> set fallbackOrder \<and> m \<in> set avail \<and> m \<noteq> c) \<longrightarrow>
      (\<exists>m. getNextModel c avail = Some m \<and> m \<in> set avail \<and> m \<noteq> c \<and> m \<in> set fallbackOrder)) \<and>
   (\<not> (\<exists>m. m \<in> set fallbackOrder \<and> m \<in> set avail \<and> m \<noteq> c) \<longrightarrow> getNextModel c avail = None) \<and>
   (set avail \<subseteq> {c} \<longrightarrow> getNextModel c avail = None)"
proof -
  have n: "getNextModel c avail = None \<longleftrightarrow>
           (\<forall>m\<in>set fallbackOrder. m \<in> set avail \<longrightarrow> m = c)"
    by (simp only: getNextModel_refines nextFallback_spec_None)
  have s: "\<And>m. getNextModel c avail = Some m \<Longrightarrow>
             m \<in> set avail \<and> m \<noteq> c \<and> m \<in> set fallbackOrder"
    by (auto simp: getNextModel_refines dest: nextFallback_spec_Some)
  show ?thesis
  proof (intro conjI impI)
    assume "\<exists>m. m \<in> set fallbackOrder \<and> m \<in> set avail \<and> m \<noteq> c"
    then have "getNextModel c avail \<noteq> None" using n by blast
    then obtain m where "getNextModel c avail = Some m" by blast
    with s show "\<exists>m. getNextModel c avail = Some m \<and> m \<in> set avail \<and> m \<noteq> c
                   \<and> m \<in> set fallbackOrder"
      by blast
  next
    assume "\<not> (\<exists>m. m \<in> set fallbackOrder \<and> m \<in> set avail \<and> m \<noteq> c)"
    then show "getNextModel c avail = None" using n by blast
  next
    assume "set avail \<subseteq> {c}"
    then show "getNextModel c avail = None" using n by blast
  qed
qed

theorem getNextModel_fallback_total_witness:
  "GPT4 \<in> set fallbackOrder \<and> GPT4 \<in> set [GPT4, GPT35Turbo] \<and> GPT4 \<noteq> V0 \<and>
   (\<exists>m. getNextModel V0 [GPT4, GPT35Turbo] = Some m \<and> m \<in> set [GPT4, GPT35Turbo] \<and> m \<noteq> V0
        \<and> m \<in> set fallbackOrder) \<and>
   set [V0] \<subseteq> {V0} \<and> getNextModel V0 [V0] = None"
proof -
  have h: "\<exists>m. m \<in> set fallbackOrder \<and> m \<in> set [GPT4, GPT35Turbo] \<and> m \<noteq> V0"
    by (rule exI[of _ GPT4]) (simp add: fallbackOrder_def)
  have g: "set [V0] \<subseteq> {V0}" by simp
  show ?thesis
    using h g getNextModel_fallback_total [of "[GPT4, GPT35Turbo]" V0]
      getNextModel_fallback_total [of "[V0]" V0]
    by (simp add: fallbackOrder_def)
qed

text \<open>
  Claim C4: \<open>getNextModel\<close> returns the first model strictly after \<open>currentModel\<close> in the
  priority order that is available; failing that it wraps around to the first available
  model strictly before \<open>currentModel\<close>; failing that it returns none. The order splits at
  a listed \<open>currentModel\<close> into the models before it, itself and the models after it.
  With current \<open>v0\<close> and available \<open>{v0, claude-sonnet-4}\<close> the result is
  \<open>claude-sonnet-4\<close>, the unavailable \<open>gpt-4-turbo\<close> being skipped.
\<close>

theorem getNextModel_priority_order:
  "getNextModel c avail =
     (case find (\<lambda>m. m \<in> set avail) (modelsAfter c) of
        Some m \<Rightarrow> Some m
      | None \<Rightarrow> find (\<lambda>m. m \<in> set avail) (modelsBefore c)) \<and>
   (c \<in> set fallbackOrder \<longrightarrow> fallbackOrder = modelsBefore c @ c # modelsAfter c) \<and>
   getNextModel V0 [V0, ClaudeSonnet4] = Some ClaudeSonnet4"
proof (intro conjI impI)
  show "getNextModel c avail =
     (case find (\<lambda>m. m \<in> set avail) (modelsAfter c) of
        Some m \<Rightarrow> Some m
      | None \<Rightarrow> find (\<lambda>m. m \<in> set avail) (modelsBefore c))"
    by (simp only: getNextModel_refines nextFallback_spec_def)
  show "fallbackOrder = modelsBefore c @ c # modelsAfter c" if "c \<in> set fallbackOrder"
    using that by (rule before_current_after)
  show "getNextModel V0 [V0, ClaudeSonnet4] = Some ClaudeSonnet4"
    by (simp add: getNextModel_def fallbackOrder_def scanOrder.simps)
qed

theorem getNextModel_priority_order_witness:
  "GPT4 \<in> set fallbackOrder \<and>
   modelsBefore GPT4 = [V0, GPT4Turbo, ClaudeSonnet4] \<and>
   modelsAfter GPT4 = [Claude3Sonnet, O3Mini, Claude3Haiku] \<and>
   fallbackOrder = modelsBefore GPT4 @ GPT4 # modelsAfter GPT4 \<and>
   getNextModel GPT4 [GPT4Turbo, GPT4, O3Mini] = Some O3Mini \<and>
   getNextModel GPT4 [GPT4Turbo, GPT4, ClaudeSonnet4] = Some GPT4Turbo"
proof -
  have h: "GPT4 \<in> set fallbackOrder" by (simp add: fallbackOrder_def)
  show ?thesis
    using h getNextModel_priority_order [of GPT4 "[GPT4Turbo, GPT4, O3Mini]"]
      getNextModel_priority_order [of GPT4 "[GPT4Turbo, GPT4, ClaudeSonnet4]"]
    by (simp add: modelsBefore_def modelsAfter_def fallbackOrder_def)
qed

section \<open>Properties of the retry loop\<close>

lemma attemptsOf_append: "attemptsOf (xs @ ys) = attemptsOf xs @ attemptsOf ys"
  by (induction xs rule: attemptsOf.induct) auto

lemma selectStrategy_nonempty:
  "strategies \<noteq> [] \<Longrightarrow> 0 \<le> i \<Longrightarrow>
   selectStrategy strategies i = Some (strategyAt strategies i)"
proof -
  assume ne: "strategies \<noteq> []" and i: "0 \<le> i"
  then have len: "0 < length strategies" by simp
  have "nat (min i (int (length strategies) - 1)) = min (nat i) (length strategies - 1)"
    using i len by (simp add: min_def) linarith
  moreover have "0 \<le> min i (int (length strategies) - 1)"
    using i len by simp
  moreover have "min i (int (length strategies) - 1) < int (length strategies)"
    by simp
  ultimately show ?thesis
    by (simp add: selectStrategy_def strategyAt_def Let_def)
qed

lemma selectStrategy_last:
  "strategies \<noteq> [] \<Longrightarrow> int (length strategies) - 1 \<le> i \<Longrightarrow>
   selectStrategy strategies i = Some (last strategies)"
proof -
  assume ne: "strategies \<noteq> []" and i: "int (length strategies) - 1 \<le> i"
  then have "0 \<le> i" by (cases strategies) auto
  with ne have "selectStrategy strategies i = Some (strategyAt strategies i)"
    by (rule selectStrategy_nonempty)
  moreover have "min (nat i) (length strategies - 1) = length strategies - 1"
    using i by linarith
  ultimately show ?thesis using ne by (simp add: last_conv_nth strategyAt_def)
qed

lemma retryLoop_stop:
  "\<not> a \<le> retries \<Longrightarrow>
   retryLoop strategies cap retries a le evs = (Inl (failureMessage retries le), evs)"
  by (subst retryLoop.simps) simp

lemma retryLoop_undefined:
  "a \<le> retries \<Longrightarrow> selectStrategy strategies a = None \<Longrightarrow>
   retryLoop strategies cap retries a le evs =
     retryLoop strategies cap retries (a + 1)
       (Some ''Cannot read properties of undefined (reading 'name')'')
       (if a < retries then evs @ [Backoff ((a + 1) * 2000)] else evs)"
  by (subst retryLoop.simps) simp

lemma retryLoop_success:
  "a \<le> retries \<Longrightarrow> selectStrategy strategies a = Some st \<Longrightarrow> cap a st = Inr p \<Longrightarrow>
   retryLoop strategies cap retries a le evs = (Inr p, evs @ [Attempt a st])"
  by (subst retryLoop.simps) simp

lemma retryLoop_failure:
  "a \<le> retries \<Longrightarrow> selectStrategy strategies a = Some st \<Longrightarrow> cap a st = Inl m \<Longrightarrow>
   retryLoop strategies cap retries a le evs =
     retryLoop strategies cap retries (a + 1) (Some m)
       (if a < retries then evs @ [Attempt a st, Backoff ((a + 1) * 2000)]
        else evs @ [Attempt a st])"
  by (subst retryLoop.simps) simp

lemma retryLoop_attempts_selected:
  "(\<forall>(i, s)\<in>set (attemptsOf evs). selectStrategy strategies i = Some s) \<Longrightarrow>
   (\<forall>(i, s)\<in>set (attemptsOf (snd (retryLoop strategies cap retries a le evs))).
      selectStrategy strategies i = Some s)"
proof (induction "nat (retries + 1 - a)" arbitrary: a le evs)
  case 0
  then have "\<not> a \<le> retries" by simp
  with "0.prems" show ?case by (simp add: retryLoop_stop)
next
  case (Suc n)
  then have le: "a \<le> retries" and n: "n = nat (retries + 1 - (a + 1))" by linarith+
  show ?case
  proof (cases "selectStrategy strategies a")
    case None
    have "\<forall>(i, s)\<in>set (attemptsOf (if a < retries then evs @ [Backoff ((a + 1) * 2000)] else evs)).
            selectStrategy strategies i = Some s"
      using Suc.prems by (simp add: attemptsOf_append)
    from Suc.hyps(1)[OF n this] show ?thesis
      by (simp only: retryLoop_undefined[OF le None])
  next
    case (Some st)
    show ?thesis
    proof (cases "cap a st")
      case (Inr p)
      with Suc.prems Some show ?thesis
        by (simp add: retryLoop_success[where cap = cap, OF le Some Inr] attemptsOf_append)
    next
      case (Inl m)
      have "\<forall>(i, s)\<in>set (attemptsOf (if a < retries
                then evs @ [Attempt a st, Backoff ((a + 1) * 2000)]
                else evs @ [Attempt a st])).
            selectStrategy strategies i = Some s"
        using Suc.prems Some by (simp add: attemptsOf_append)
      from Suc.hyps(1)[OF n this] show ?thesis
        by (simp only: retryLoop_failure[where cap = cap, OF le Some Inl])
    qed
  qed
qed


lemma retryLoop_attempts_bound:
  "length (attemptsOf (snd (retryLoop strategies cap retries a le evs)))
     \<le> length (attemptsOf evs) + nat (retries + 1 - a)"
proof (induction "nat (retries + 1 - a)" arbitrary: a le evs)
  case 0
  then have "\<not> a \<le> retries" by simp
  then show ?case by (simp add: retryLoop_stop)
next
  case (Suc n)
  then have le: "a \<le> retries" and n: "n = nat (retries + 1 - (a + 1))" by linarith+
  have step: "nat (retries + 1 - a) = Suc (nat (retries + 1 - (a + 1)))"
    using le by linarith
  show ?case
  proof (cases "selectStrategy strategies a")
    case None
    define evs' where "evs' = (if a < retries then evs @ [Backoff ((a + 1) * 2000)] else evs)"
    have ae: "attemptsOf evs' = attemptsOf evs"
      by (simp add: evs'_def attemptsOf_append)
    have eq: "retryLoop strategies cap retries a le evs =
        retryLoop strategies cap retries (a + 1)
          (Some ''Cannot read properties of undefined (reading 'name')'') evs'"
      unfolding evs'_def by (rule retryLoop_undefined[OF le None])
    show ?thesis
      using Suc.hyps(1)[OF n, of "Some ''Cannot read properties of undefined (reading 'name')''" evs']
      by (simp add: eq ae step)
  next
    case (Some st)
    show ?thesis
    proof (cases "cap a st")
      case (Inr p)
      show ?thesis
        by (simp add: retryLoop_success[where cap = cap, OF le Some Inr] attemptsOf_append step)
    next
      case (Inl m)
      define evs' where "evs' = (if a < retries
          then evs @ [Attempt a st, Backoff ((a + 1) * 2000)] else evs @ [Attempt a st])"
      have ae: "attemptsOf evs' = attemptsOf evs @ [(a, st)]"
        by (simp add: evs'_def attemptsOf_append)
      have eq: "retryLoop strategies cap retries a le evs =
          retryLoop strategies cap retries (a + 1) (Some m) evs'"
        unfolding evs'_def by (rule retryLoop_failure[where cap = cap, OF le Some Inl])
      show ?thesis
        using Suc.hyps(1)[OF n, of "Some m" evs']
        by (simp add: eq ae step)
    qed
  qed
qed

lemma retryLoop_all_fail:
  assumes ne: "strategies \<noteq> []"
  shows "0 \<le> a \<Longrightarrow>
    (\<forall>i. a \<le> i \<and> i \<le> N \<longrightarrow>
       isl (cap i (strategyAt strategies i))) \<Longrightarrow>
    fst (retryLoop strategies cap N a le evs) =
      Inl (failureMessage N
        (if a \<le> N then Some (projl (cap N (strategyAt strategies N)))
         else le)) \<and>
    attemptsOf (snd (retryLoop strategies cap N a le evs)) =
      attemptsOf evs @ map (\<lambda>i. (i, strategyAt strategies i)) [a..N]"
proof (induction "nat (N + 1 - a)" arbitrary: a le evs)
  case 0
  then have "\<not> a \<le> N" by simp
  then show ?case by (simp add: retryLoop_stop)
next
  case (Suc n)
  then have le: "a \<le> N" and n: "n = nat (N + 1 - (a + 1))" by linarith+
  let ?st = "strategyAt strategies a"
  have sel: "selectStrategy strategies a = Some ?st"
    using ne Suc.prems(1) by (rule selectStrategy_nonempty)
  from Suc.prems(2) le have "isl (cap a ?st)" by simp
  then obtain m where m: "cap a ?st = Inl m" by (cases "cap a ?st") auto
  have a1: "0 \<le> a + 1" using Suc.prems(1) by simp
  have rest: "\<forall>i. a + 1 \<le> i \<and> i \<le> N \<longrightarrow>
       isl (cap i (strategyAt strategies i))"
    using Suc.prems(2) by simp
  define evs' where "evs' = (if a < N
      then evs @ [Attempt a ?st, Backoff ((a + 1) * 2000)] else evs @ [Attempt a ?st])"
  have ae: "attemptsOf evs' = attemptsOf evs @ [(a, ?st)]"
    by (simp add: evs'_def attemptsOf_append)
  have eq: "retryLoop strategies cap N a le evs = retryLoop strategies cap N (a + 1) (Some m) evs'"
    unfolding evs'_def by (rule retryLoop_failure[where cap = cap, OF le sel m])
  note ih = Suc.hyps(1)[OF n a1 rest, of "Some m" evs']
  have up: "[a..N] = a # [a + 1..N]" using le by (simp add: upto_rec1)
  have last_err: "(if a + 1 \<le> N
        then Some (projl (cap N (strategyAt strategies N)))
        else Some m) = Some (projl (cap N (strategyAt strategies N)))"
  proof (cases "a + 1 \<le> N")
    case True
    then show ?thesis by simp
  next
    case False
    with le have "a = N" by simp
    with m False show ?thesis by simp
  qed
  show ?case
    using ih le by (simp add: eq ae up last_err)
qed

lemma retryLoop_first_success:
  assumes ne: "strategies \<noteq> []"
  shows "0 \<le> a \<Longrightarrow> a \<le> k \<Longrightarrow> k \<le> N \<Longrightarrow>
    (\<forall>i. a \<le> i \<and> i < k \<longrightarrow>
       isl (cap i (strategyAt strategies i))) \<Longrightarrow>
    cap k (strategyAt strategies k) = Inr p \<Longrightarrow>
    fst (retryLoop strategies cap N a le evs) = Inr p \<and>
    attemptsOf (snd (retryLoop strategies cap N a le evs)) =
      attemptsOf evs @ map (\<lambda>i. (i, strategyAt strategies i)) [a..k]"
proof (induction "nat (k - a)" arbitrary: a le evs)
  case 0
  then have ak: "a = k" by simp
  let ?st = "strategyAt strategies k"
  have sel: "selectStrategy strategies k = Some ?st"
    using ne "0.prems"(1) ak by (simp add: selectStrategy_nonempty)
  show ?case
    by (simp add: ak retryLoop_success[where cap = cap, OF "0.prems"(3) sel "0.prems"(5)]
        attemptsOf_append)
next
  case (Suc n)
  then have lt: "a < k" and n: "n = nat (k - (a + 1))" by linarith+
  then have le: "a \<le> N" using Suc.prems(3) by simp
  let ?st = "strategyAt strategies a"
  have sel: "selectStrategy strategies a = Some ?st"
    using ne Suc.prems(1) by (rule selectStrategy_nonempty)
  from Suc.prems(4) lt have "isl (cap a ?st)" by simp
  then obtain m where m: "cap a ?st = Inl m" by (cases "cap a ?st") auto
  have a1: "0 \<le> a + 1" "a + 1 \<le> k" using Suc.prems(1) lt by simp_all
  have rest: "\<forall>i. a + 1 \<le> i \<and> i < k \<longrightarrow>
       isl (cap i (strategyAt strategies i))"
    using Suc.prems(4) by simp
  define evs' where "evs' = (if a < N
      then evs @ [Attempt a ?st, Backoff ((a + 1) * 2000)] else evs @ [Attempt a ?st])"
  have ae: "attemptsOf evs' = attemptsOf evs @ [(a, ?st)]"
    by (simp add: evs'_def attemptsOf_append)
  have eq: "retryLoop strategies cap N a le evs = retryLoop strategies cap N (a + 1) (Some m) evs'"
    unfolding evs'_def by (rule retryLoop_failure[where cap = cap, OF le sel m])
  note ih = Suc.hyps(1)[OF n a1 Suc.prems(3) rest Suc.prems(5), of "Some m" evs']
  have up: "[a..k] = a # [a + 1..k]" using lt by (simp add: upto_rec1)
  show ?case
    using ih by (simp add: eq ae up)
qed


lemma DEFAULT_RETRY_STRATEGIES_nonempty:
  "DEFAULT_RETRY_STRATEGIES \<noteq> []" "DEFAULT_RETRY_STRATEGIES_2 \<noteq> []"
  by (simp_all add: DEFAULT_RETRY_STRATEGIES_def DEFAULT_RETRY_STRATEGIES_2_def)

lemma captureWithRetry_on_attempts_selected:
  "(i, s) \<in> set (attemptsOf (snd (captureWithRetry_on strategies cap retriesOpt))) \<Longrightarrow>
   selectStrategy strategies i = Some s"
  using retryLoop_attempts_selected[of "[]" strategies cap
      "case retriesOpt of None \<Rightarrow> 3 | Some r \<Rightarrow> r" 0 None]
  by (auto simp: captureWithRetry_on_def)

text \<open>
  Claim C6: for every attempt index \<open>i \<ge> 0\<close> the strategy selected, and the one every
  attempt \<open>i\<close> of \<open>captureWithRetry\<close> is made with, is
  \<open>strategies[min(i, strategies.length - 1)]\<close>; from the last index of the table on it is
  the last strategy of the table. This holds for the strategy table of either version.
\<close>

theorem captureWithRetry_strategy_selection:
  assumes "0 \<le> i"
  shows
    "selectStrategy DEFAULT_RETRY_STRATEGIES i =
       Some (DEFAULT_RETRY_STRATEGIES ! min (nat i) (length DEFAULT_RETRY_STRATEGIES - 1)) \<and>
     (int (length DEFAULT_RETRY_STRATEGIES) \<le> i \<longrightarrow>
        selectStrategy DEFAULT_RETRY_STRATEGIES i = Some (last DEFAULT_RETRY_STRATEGIES)) \<and>
     (\<forall>s. (i, s) \<in> set (attemptsOf (snd (captureWithRetry cap retriesOpt))) \<longrightarrow>
        s = DEFAULT_RETRY_STRATEGIES ! min (nat i) (length DEFAULT_RETRY_STRATEGIES - 1)) \<and>
     selectStrategy DEFAULT_RETRY_STRATEGIES_2 i =
       Some (DEFAULT_RETRY_STRATEGIES_2 ! min (nat i) (length DEFAULT_RETRY_STRATEGIES_2 - 1)) \<and>
     (int (length DEFAULT_RETRY_STRATEGIES_2) \<le> i \<longrightarrow>
        selectStrategy DEFAULT_RETRY_STRATEGIES_2 i = Some (last DEFAULT_RETRY_STRATEGIES_2)) \<and>
     (\<forall>s. (i, s) \<in> set (attemptsOf (snd (captureWithRetry_2 cap retriesOpt))) \<longrightarrow>
        s = DEFAULT_RETRY_STRATEGIES_2 ! min (nat i) (length DEFAULT_RETRY_STRATEGIES_2 - 1))"
proof -
  have sel: "selectStrategy strategies i = Some (strategies ! min (nat i) (length strategies - 1))"
    if "strategies \<noteq> []" for strategies
    using selectStrategy_nonempty[OF that assms] by (simp add: strategyAt_def)
  have lst: "selectStrategy strategies i = Some (last strategies)"
    if "strategies \<noteq> []" "int (length strategies) \<le> i" for strategies
    using that by (intro selectStrategy_last) simp_all
  have att: "s = strategies ! min (nat i) (length strategies - 1)"
    if "strategies \<noteq> []"
      "(i, s) \<in> set (attemptsOf (snd (captureWithRetry_on strategies cap retriesOpt)))"
    for strategies s
    using captureWithRetry_on_attempts_selected[OF that(2)] sel[OF that(1)] by simp
  show ?thesis
    using sel lst att DEFAULT_RETRY_STRATEGIES_nonempty
    by (simp add: captureWithRetry_def captureWithRetry_2_def)
qed

theorem captureWithRetry_strategy_selection_witness:
  "(0::int) \<le> 6 \<and>
   selectStrategy DEFAULT_RETRY_STRATEGIES 6 = Some (DEFAULT_RETRY_STRATEGIES ! 3) \<and>
   int (length DEFAULT_RETRY_STRATEGIES) \<le> 6 \<and>
   selectStrategy DEFAULT_RETRY_STRATEGIES 6 = Some (last DEFAULT_RETRY_STRATEGIES) \<and>
   name (last DEFAULT_RETRY_STRATEGIES) = ''Force Load'' \<and>
   selectStrategy DEFAULT_RETRY_STRATEGIES_2 6 = Some (last DEFAULT_RETRY_STRATEGIES_2) \<and>
   name (last DEFAULT_RETRY_STRATEGIES_2) = ''Minimal''"
proof -
  have h: "(0::int) \<le> 6" by simp
  show ?thesis
    using captureWithRetry_strategy_selection
      [where i = 6 and cap = "\<lambda>i s. Inl []" and retriesOpt = None, OF h]
    by (simp add: DEFAULT_RETRY_STRATEGIES_def DEFAULT_RETRY_STRATEGIES_2_def)
qed

text \<open>
  Claim C7: for every retry budget \<open>N \<ge> 0\<close>, \<open>captureWithRetry\<close> makes at most \<open>N + 1\<close>
  capture attempts. If every attempt fails, it makes exactly the attempts \<open>0, \<dots>, N\<close> and
  throws one error whose message holds the number \<open>N + 1\<close> of attempts and the message of
  the last underlying error. If attempt \<open>k\<close> is the first to succeed, it returns that
  attempt's image path and the attempts made are exactly \<open>0, \<dots>, k\<close>.
\<close>

theorem captureWithRetry_attempt_budget:
  assumes "0 \<le> N"
  shows
    "length (attemptsOf (snd (captureWithRetry cap (Some N)))) \<le> nat (N + 1) \<and>
     ((\<forall>i. 0 \<le> i \<and> i \<le> N \<longrightarrow> isl (cap i (strategyAt DEFAULT_RETRY_STRATEGIES i))) \<longrightarrow>
        fst (captureWithRetry cap (Some N)) =
          Inl (''Failed to capture screenshot after '' @ show_int (N + 1) @
               '' attempts. Last error: '' @
               projl (cap N (strategyAt DEFAULT_RETRY_STRATEGIES N))) \<and>
        map fst (attemptsOf (snd (captureWithRetry cap (Some N)))) = [0..N] \<and>
        length (attemptsOf (snd (captureWithRetry cap (Some N)))) = nat (N + 1)) \<and>
     (\<forall>k p. 0 \<le> k \<and> k \<le> N \<and>
        (\<forall>i. 0 \<le> i \<and> i < k \<longrightarrow> isl (cap i (strategyAt DEFAULT_RETRY_STRATEGIES i))) \<and>
        cap k (strategyAt DEFAULT_RETRY_STRATEGIES k) = Inr p \<longrightarrow>
        fst (captureWithRetry cap (Some N)) = Inr p \<and>
        map fst (attemptsOf (snd (captureWithRetry cap (Some N)))) = [0..k])"
proof (intro conjI impI allI)
  show "length (attemptsOf (snd (captureWithRetry cap (Some N)))) \<le> nat (N + 1)"
    using retryLoop_attempts_bound[of DEFAULT_RETRY_STRATEGIES cap N 0 None "[]"]
    by (simp add: captureWithRetry_def captureWithRetry_on_def)
next
  assume all: "\<forall>i. 0 \<le> i \<and> i \<le> N \<longrightarrow> isl (cap i (strategyAt DEFAULT_RETRY_STRATEGIES i))"
  note r = retryLoop_all_fail[where cap = cap and a = 0 and le = None and evs = "[]",
      OF DEFAULT_RETRY_STRATEGIES_nonempty(1) order_refl all]
  show "fst (captureWithRetry cap (Some N)) =
          Inl (''Failed to capture screenshot after '' @ show_int (N + 1) @
               '' attempts. Last error: '' @
               projl (cap N (strategyAt DEFAULT_RETRY_STRATEGIES N)))"
    using r assms by (simp add: captureWithRetry_def captureWithRetry_on_def failureMessage_def)
  show m: "map fst (attemptsOf (snd (captureWithRetry cap (Some N)))) = [0..N]"
    using r by (simp add: captureWithRetry_def captureWithRetry_on_def comp_def)
  show "length (attemptsOf (snd (captureWithRetry cap (Some N)))) = nat (N + 1)"
    using arg_cong[OF m, of length] by simp
next
  fix k p
  assume h: "0 \<le> k \<and> k \<le> N \<and>
        (\<forall>i. 0 \<le> i \<and> i < k \<longrightarrow> isl (cap i (strategyAt DEFAULT_RETRY_STRATEGIES i))) \<and>
        cap k (strategyAt DEFAULT_RETRY_STRATEGIES k) = Inr p"
  then have k: "0 \<le> k" "k \<le> N"
    and f: "\<forall>i. 0 \<le> i \<and> i < k \<longrightarrow> isl (cap i (strategyAt DEFAULT_RETRY_STRATEGIES i))"
    and s: "cap k (strategyAt DEFAULT_RETRY_STRATEGIES k) = Inr p"
    by simp_all
  note r = retryLoop_first_success[where cap = cap and a = 0 and le = None and evs = "[]",
      OF DEFAULT_RETRY_STRATEGIES_nonempty(1) order_refl k f s]
  show "fst (captureWithRetry cap (Some N)) = Inr p"
    using r by (simp add: captureWithRetry_def captureWithRetry_on_def)
  show "map fst (attemptsOf (snd (captureWithRetry cap (Some N)))) = [0..k]"
    using r by (simp add: captureWithRetry_def captureWithRetry_on_def comp_def)
qed

theorem captureWithRetry_attempt_budget_witness:
  "(0::int) \<le> 3 \<and>
   fst (captureWithRetry (\<lambda>i s. Inl (''timeout in '' @ name s)) (Some 3)) =
     Inl ''Failed to capture screenshot after 4 attempts. Last error: timeout in Force Load'' \<and>
   map fst (attemptsOf (snd (captureWithRetry (\<lambda>i s. Inl (''timeout in '' @ name s)) (Some 3))))
     = [0, 1, 2, 3] \<and>
   fst (captureWithRetry (\<lambda>i s. if i < 1 then Inl ''timeout'' else Inr (name s @ ''.png''))
          (Some 3)) = Inr ''Dynamic Content.png'' \<and>
   map fst (attemptsOf (snd (captureWithRetry
          (\<lambda>i s. if i < 1 then Inl ''timeout'' else Inr (name s @ ''.png'')) (Some 3))))
     = [0, 1]"
proof -
  let ?c1 = "\<lambda>(i::int) s. Inl (''timeout in '' @ name s) :: string + string"
  let ?c2 = "\<lambda>(i::int) s. (if i < 1 then Inl ''timeout'' else Inr (name s @ ''.png'')) :: string + string"
  have h: "(0::int) \<le> 3" by simp
  have u: "[0..3::int] = [0, 1, 2, 3]" "[0..1::int] = [0, 1]" by (simp_all add: upto_rec1)
  have n: "show_int 4 = ''4''"
    by (simp add: show_int_def show_nat.simps digit_def)
  have s3: "name (strategyAt DEFAULT_RETRY_STRATEGIES 3) = ''Force Load''"
    "name (strategyAt DEFAULT_RETRY_STRATEGIES 1) = ''Dynamic Content''"
    by (simp_all add: strategyAt_def DEFAULT_RETRY_STRATEGIES_def)
  have f: "\<forall>i. 0 \<le> i \<and> i \<le> 3 \<longrightarrow> isl (?c1 i (strategyAt DEFAULT_RETRY_STRATEGIES i))"
    by simp
  have g: "0 \<le> (1::int) \<and> (1::int) \<le> 3 \<and>
        (\<forall>i. 0 \<le> i \<and> i < 1 \<longrightarrow> isl (?c2 i (strategyAt DEFAULT_RETRY_STRATEGIES i))) \<and>
        ?c2 1 (strategyAt DEFAULT_RETRY_STRATEGIES 1) = Inr ''Dynamic Content.png''"
    by (simp add: s3)
  note t1 = captureWithRetry_attempt_budget [where N = 3 and cap = ?c1, OF h]
  note t2 = captureWithRetry_attempt_budget [where N = 3 and cap = ?c2, OF h]
  from t1 f have a1: "fst (captureWithRetry ?c1 (Some 3)) =
          Inl (''Failed to capture screenshot after '' @ show_int (3 + 1) @
               '' attempts. Last error: '' @
               projl (?c1 3 (strategyAt DEFAULT_RETRY_STRATEGIES 3)))"
    and a2: "map fst (attemptsOf (snd (captureWithRetry ?c1 (Some 3)))) = [0..3]"
    by blast+
  from t2 have "\<forall>k p. 0 \<le> k \<and> k \<le> 3 \<and>
        (\<forall>i. 0 \<le> i \<and> i < k \<longrightarrow> isl (?c2 i (strategyAt DEFAULT_RETRY_STRATEGIES i))) \<and>
        ?c2 k (strategyAt DEFAULT_RETRY_STRATEGIES k) = Inr p \<longrightarrow>
        fst (captureWithRetry ?c2 (Some 3)) = Inr p \<and>
        map fst (attemptsOf (snd (captureWithRetry ?c2 (Some 3)))) = [0..k]"
    by (elim conjE)
  from this[rule_format, OF g]
  have b: "fst (captureWithRetry ?c2 (Some 3)) = Inr ''Dynamic Content.png''"
    "map fst (attemptsOf (snd (captureWithRetry ?c2 (Some 3)))) = [0..1]"
    by simp_all
  show ?thesis
    using a1 a2 b by (simp add: n s3 u del: upto.simps)
qed


text \<open>
  Claim C8, as the specification states it, fails in both strategy tables: the final
  strategy waits 3000 ms after the load, the third one 8000 ms (10000 ms in the second
  table), so the final strategy does not have the longest fixed wait.
\<close>

theorem final_strategy_longest_wait_counterexample:
  "DEFAULT_RETRY_STRATEGIES ! 2 \<in> set DEFAULT_RETRY_STRATEGIES \<and>
   waitTime (last DEFAULT_RETRY_STRATEGIES) = 3000 \<and>
   waitTime (DEFAULT_RETRY_STRATEGIES ! 2) = 8000 \<and>
   \<not> waitTime (DEFAULT_RETRY_STRATEGIES ! 2) \<le> waitTime (last DEFAULT_RETRY_STRATEGIES) \<and>
   DEFAULT_RETRY_STRATEGIES_2 ! 2 \<in> set DEFAULT_RETRY_STRATEGIES_2 \<and>
   waitTime (last DEFAULT_RETRY_STRATEGIES_2) = 3000 \<and>
   waitTime (DEFAULT_RETRY_STRATEGIES_2 ! 2) = 10000 \<and>
   \<not> waitTime (DEFAULT_RETRY_STRATEGIES_2 ! 2) \<le> waitTime (last DEFAULT_RETRY_STRATEGIES_2)"
  by (simp add: DEFAULT_RETRY_STRATEGIES_def DEFAULT_RETRY_STRATEGIES_2_def)

text \<open>
  Claim C8, amended: in both strategy tables the final strategy requires the \<open>load\<close>
  event and has a fixed wait of 3000 ms, which is longer than the first strategy's and
  shorter than the second's and the third's; the longest fixed wait of the table is the
  third strategy's.
\<close>

theorem final_strategy_wait:
  "waitUntil (last DEFAULT_RETRY_STRATEGIES) = Some (One Load) \<and>
   waitTime (last DEFAULT_RETRY_STRATEGIES) = 3000 \<and>
   waitTime (DEFAULT_RETRY_STRATEGIES ! 0) < waitTime (last DEFAULT_RETRY_STRATEGIES) \<and>
   waitTime (last DEFAULT_RETRY_STRATEGIES) < waitTime (DEFAULT_RETRY_STRATEGIES ! 1) \<and>
   waitTime (last DEFAULT_RETRY_STRATEGIES) < waitTime (DEFAULT_RETRY_STRATEGIES ! 2) \<and>
   (\<forall>s\<in>set DEFAULT_RETRY_STRATEGIES. waitTime s \<le> waitTime (DEFAULT_RETRY_STRATEGIES ! 2)) \<and>
   waitUntil (last DEFAULT_RETRY_STRATEGIES_2) = Some (One Load) \<and>
   waitTime (last DEFAULT_RETRY_STRATEGIES_2) = 3000 \<and>
   waitTime (DEFAULT_RETRY_STRATEGIES_2 ! 0) < waitTime (last DEFAULT_RETRY_STRATEGIES_2) \<and>
   waitTime (last DEFAULT_RETRY_STRATEGIES_2) < waitTime (DEFAULT_RETRY_STRATEGIES_2 ! 1) \<and>
   waitTime (last DEFAULT_RETRY_STRATEGIES_2) < waitTime (DEFAULT_RETRY_STRATEGIES_2 ! 2) \<and>
   (\<forall>s\<in>set DEFAULT_RETRY_STRATEGIES_2.
      waitTime s \<le> waitTime (DEFAULT_RETRY_STRATEGIES_2 ! 2))"
  by (simp add: DEFAULT_RETRY_STRATEGIES_def DEFAULT_RETRY_STRATEGIES_2_def)

theorem final_strategy_wait_witness:
  "last DEFAULT_RETRY_STRATEGIES \<in> set DEFAULT_RETRY_STRATEGIES \<and>
   waitTime (last DEFAULT_RETRY_STRATEGIES) \<le> waitTime (DEFAULT_RETRY_STRATEGIES ! 2) \<and>
   last DEFAULT_RETRY_STRATEGIES_2 \<in> set DEFAULT_RETRY_STRATEGIES_2 \<and>
   waitTime (last DEFAULT_RETRY_STRATEGIES_2) \<le> waitTime (DEFAULT_RETRY_STRATEGIES_2 ! 2)"
proof -
  have m: "last DEFAULT_RETRY_STRATEGIES \<in> set DEFAULT_RETRY_STRATEGIES"
    "last DEFAULT_RETRY_STRATEGIES_2 \<in> set DEFAULT_RETRY_STRATEGIES_2"
    by (simp_all add: DEFAULT_RETRY_STRATEGIES_nonempty)
  show ?thesis
    using m final_strategy_wait by blast
qed

section \<open>Properties of the quota file and of dispatch\<close>

lemma window_pos: "0 < window (limits s)"
  by (cases s) simp_all

lemma daily_pos: "0 < daily (limits s)"
  by (cases s) simp_all

lemma loadData_cases:
  "loadData t None = emptyData t"
  "loadData t (Some Garbage) = emptyData t"
  "loadData t (Some (Json d)) = d"
  by (simp_all add: loadData_def readFile_def JSON_parse_def)

lemma count_loadData_time: "count (loadData t file s) = count (loadData t' file s)"
proof (cases "file")
  case None
  then show ?thesis by (simp add: loadData_cases emptyData_def)
next
  case (Some c)
  then show ?thesis by (cases c) (simp_all add: loadData_cases emptyData_def)
qed

lemma withinCaps_loadData:
  "withinCaps file \<longleftrightarrow> (\<forall>s. count (loadData t file s) \<le> daily (limits s))"
proof (cases "file")
  case None
  then show ?thesis
    using daily_pos by (auto simp: withinCaps_def loadData_cases emptyData_def intro: less_imp_le)
next
  case (Some c)
  show ?thesis
  proof (cases c)
    case Garbage
    with Some show ?thesis
      using daily_pos by (auto simp: withinCaps_def loadData_cases emptyData_def intro: less_imp_le)
  next
    case (Json d)
    have "(\<forall>s. count (d s) \<le> daily (limits s)) \<longleftrightarrow>
          count (d SvcV0) \<le> daily (limits SvcV0) \<and>
          count (d SvcOpenAI) \<le> daily (limits SvcOpenAI) \<and>
          count (d SvcAnthropic) \<le> daily (limits SvcAnthropic)"
      (is "?L \<longleftrightarrow> ?R")
    proof
      assume ?L then show ?R by blast
    next
      assume r: ?R
      show ?L
      proof
        fix s show "count (d s) \<le> daily (limits s)" using r by (cases s) simp_all
      qed
    qed
    with Some Json show ?thesis by (simp add: withinCaps_def loadData_cases)
  qed
qed

lemma checkLimit_file:
  "snd (checkLimit s l n file) =
     (if n > resetAt (loadData l file s)
      then Some (Json ((loadData l file)(s := \<lparr>count = 0, resetAt = n + window (limits s)\<rparr>)))
      else file)"
  by (simp add: checkLimit_def Let_def saveData_def)

lemma checkLimit_result:
  "fst (checkLimit s l n file) =
     (if n > resetAt (loadData l file s)
      then \<lparr>allowed = True, remaining = daily (limits s), resetIn = None\<rparr>
      else \<lparr>allowed = count (loadData l file s) < daily (limits s),
            remaining = max 0 (daily (limits s) - count (loadData l file s)),
            resetIn = (if count (loadData l file s) < daily (limits s) then None
                       else Some (ceilDiv (resetAt (loadData l file s) - n) 1000))\<rparr>)"
  using daily_pos[of s] by (auto simp add: checkLimit_def Let_def)

lemma increment_file:
  "increment s t file =
     Some (Json ((loadData t file)(s := (loadData t file s)\<lparr>count := count (loadData t file s) + 1\<rparr>)))"
  by (simp add: increment_def Let_def saveData_def)


lemma withinCaps_checkLimit:
  assumes "withinCaps file"
  shows "withinCaps (snd (checkLimit s l n file))"
proof (cases "n > resetAt (loadData l file s)")
  case False
  with assms show ?thesis by (simp add: checkLimit_file)
next
  case True
  have "\<forall>s'. count (((loadData l file)(s := \<lparr>count = 0, resetAt = n + window (limits s)\<rparr>)) s')
          \<le> daily (limits s')"
    using assms daily_pos[of s] by (auto simp: withinCaps_loadData[of "file" l])
  then have "withinCaps (Some (Json ((loadData l file)(s := \<lparr>count = 0, resetAt = n + window (limits s)\<rparr>))))"
    by (subst withinCaps_loadData[of _ l]) (simp add: loadData_cases)
  with True show ?thesis by (simp add: checkLimit_file)
qed

lemma allowed_count_after_check:
  assumes "allowed (fst (checkLimit s l n file))"
  shows "count (loadData t (snd (checkLimit s l n file)) s) < daily (limits s)"
proof (cases "n > resetAt (loadData l file s)")
  case True
  then show ?thesis using daily_pos[of s] by (simp add: checkLimit_file loadData_cases)
next
  case False
  with assms have "count (loadData l file s) < daily (limits s)"
    by (simp add: checkLimit_result)
  with False show ?thesis
    by (simp add: checkLimit_file count_loadData_time[of t "file" s l])
qed

lemma withinCaps_increment:
  assumes "withinCaps file" "count (loadData t file s) < daily (limits s)"
  shows "withinCaps (increment s t file)"
proof -
  have "\<forall>s'. count (((loadData t file)(s := (loadData t file s)\<lparr>count := count (loadData t file s) + 1\<rparr>)) s')
          \<le> daily (limits s')"
    using assms by (auto simp: withinCaps_loadData[of "file" t])
  then show ?thesis
    unfolding increment_file by (subst withinCaps_loadData[of _ t]) (simp add: loadData_cases)
qed

lemma chat_cases:
  assumes "m = (case optModel options of Some m \<Rightarrow> m | None \<Rightarrow> defaultModel svc)"
    and "s = getServiceForModel m"
    and "chk = checkLimit s (checkLoadNow clock) (checkNow clock) file"
    and "msgs = addSystemPrompt (prompts svc) m options messages"
  shows
    "\<not> allowed (fst chk) \<Longrightarrow>
       chat svc clock file messages options =
         \<lparr>outcome = Inl (rateLimitMessage s (case resetIn (fst chk) of Some x \<Rightarrow> x | None \<Rightarrow> 0)),
          quotaFile = snd chk, sent = []\<rparr>"
    "allowed (fst chk) \<Longrightarrow> backendFor svc m msgs options = Inl e \<Longrightarrow>
       chat svc clock file messages options =
         \<lparr>outcome = Inl e, quotaFile = snd chk, sent = [msgs]\<rparr>"
    "allowed (fst chk) \<Longrightarrow> backendFor svc m msgs options = Inr r \<Longrightarrow>
       chat svc clock file messages options =
         \<lparr>outcome = Inr r, quotaFile = increment s (incrementLoadNow clock) (snd chk),
          sent = [msgs]\<rparr>"
  unfolding assms
  by (simp_all add: chat_def Let_def split_beta)

lemma withinCaps_chat:
  assumes "withinCaps file"
  shows "withinCaps (quotaFile (chat svc clock file messages options))"
proof -
  define m where "m = (case optModel options of Some m \<Rightarrow> m | None \<Rightarrow> defaultModel svc)"
  define s where "s = getServiceForModel m"
  define chk where "chk = checkLimit s (checkLoadNow clock) (checkNow clock) file"
  define msgs where "msgs = addSystemPrompt (prompts svc) m options messages"
  have w: "withinCaps (snd chk)"
    unfolding chk_def using assms by (rule withinCaps_checkLimit)
  show ?thesis
  proof (cases "allowed (fst chk)")
    case False
    then show ?thesis
      using w chat_cases(1)[OF m_def s_def chk_def msgs_def] by simp
  next
    case True
    show ?thesis
    proof (cases "backendFor svc m msgs options")
      case (Inl e)
      then show ?thesis
        using w True chat_cases(2)[OF m_def s_def chk_def msgs_def] by simp
    next
      case (Inr r)
      have "withinCaps (increment s (incrementLoadNow clock) (snd chk))"
        using w True unfolding chk_def
        by (intro withinCaps_increment allowed_count_after_check)
      then show ?thesis
        using True Inr chat_cases(3)[OF m_def s_def chk_def msgs_def] by simp
    qed
  qed
qed

lemma withinCaps_serve: "withinCaps file \<Longrightarrow> withinCaps (serve file req)"
  by (cases req) (simp_all add: withinCaps_checkLimit withinCaps_chat)

lemma withinCaps_foldl: "withinCaps file \<Longrightarrow> withinCaps (foldl serve file reqs)"
  by (induction reqs arbitrary: "file") (simp_all add: withinCaps_serve)


text \<open>
  Claim C2: for each quota family the count in the quota file never exceeds the family's
  cap: the bound is kept by every sequence of quota queries and dispatches. Whenever the
  time of a quota query is past the stored reset timestamp of the queried family, that
  query sets the family's count to 0 and stores the reset timestamp \<open>now + window\<close>,
  which is at least \<open>now\<close>; a query that is not past the timestamp leaves the file as it is.
\<close>

theorem quota_within_cap_and_lazy_reset:
  assumes "withinCaps qf"
  shows
    "withinCaps (foldl serve qf requests) \<and>
     (now > resetAt (loadData loadNow qf service) \<longrightarrow>
        snd (checkLimit service loadNow now qf) =
          Some (Json ((loadData loadNow qf)
            (service := \<lparr>count = 0, resetAt = now + window (limits service)\<rparr>))) \<and>
        now \<le> now + window (limits service)) \<and>
     (\<not> now > resetAt (loadData loadNow qf service) \<longrightarrow>
        snd (checkLimit service loadNow now qf) = qf)"
  using assms window_pos[of service]
  by (simp add: withinCaps_foldl checkLimit_file)

theorem quota_within_cap_and_lazy_reset_witness:
  "withinCaps (Some (Json (\<lambda>s. \<lparr>count = 200, resetAt = 1000\<rparr>))) \<and>
   (2000::int) > resetAt (loadData 0 (Some (Json (\<lambda>s. \<lparr>count = 200, resetAt = 1000\<rparr>))) SvcV0) \<and>
   snd (checkLimit SvcV0 0 2000 (Some (Json (\<lambda>s. \<lparr>count = 200, resetAt = 1000\<rparr>)))) =
     Some (Json ((\<lambda>s. \<lparr>count = 200, resetAt = 1000\<rparr>)
            (SvcV0 := \<lparr>count = 0, resetAt = 86402000\<rparr>))) \<and>
   withinCaps (foldl serve (Some (Json (\<lambda>s. \<lparr>count = 200, resetAt = 1000\<rparr>)))
     [Query SvcV0 0 2000, Query SvcAnthropic 0 500])"
proof -
  have h: "withinCaps (Some (Json (\<lambda>s. \<lparr>count = 200, resetAt = 1000\<rparr>)))"
    by (simp add: withinCaps_def)
  show ?thesis
    using h quota_within_cap_and_lazy_reset
      [where qf = "Some (Json (\<lambda>s. \<lparr>count = 200, resetAt = 1000\<rparr>))"
         and requests = "[Query SvcV0 0 2000, Query SvcAnthropic 0 500]"
         and now = 2000 and loadNow = 0 and service = SvcV0, OF h]
    by (simp add: loadData_cases del: foldl.simps)
qed

text \<open>
  Claim C9: when the quota file is missing or cannot be parsed, loading it yields, without
  an error, count 0 and the reset timestamp \<open>now + window\<close> for every family; a quota
  query answers as it does on a file holding exactly that data (all of the cap remaining),
  and an increment stores that data with the count of its family at 1.
\<close>

theorem missing_or_corrupt_file_is_empty_quota:
  assumes "qf = None \<or> qf = Some Garbage"
  shows
    "loadData now qf service = \<lparr>count = 0, resetAt = now + window (limits service)\<rparr> \<and>
     fst (checkLimit service loadNow now qf) =
       fst (checkLimit service loadNow now (Some (Json (emptyData loadNow)))) \<and>
     (loadNow \<le> now \<and> now \<le> loadNow + window (limits service) \<longrightarrow>
        checkLimit service loadNow now qf =
          (\<lparr>allowed = True, remaining = daily (limits service), resetIn = None\<rparr>, qf)) \<and>
     increment service now qf =
       Some (Json ((emptyData now)
         (service := \<lparr>count = 1, resetAt = now + window (limits service)\<rparr>)))"
proof -
  from assms have l: "\<And>t. loadData t qf = emptyData t"
    by (auto simp: loadData_cases)
  have e: "\<And>t. emptyData t service = \<lparr>count = 0, resetAt = t + window (limits service)\<rparr>"
    by (simp add: emptyData_def)
  show ?thesis
    using daily_pos[of service]
    by (simp add: l e checkLimit_result increment_file loadData_cases prod_eq_iff checkLimit_file)
qed

theorem missing_or_corrupt_file_is_empty_quota_witness:
  "((None :: QuotaFile) = None \<or> (None :: QuotaFile) = Some Garbage) \<and>
   loadData 5000 None SvcOpenAI = \<lparr>count = 0, resetAt = 65000\<rparr> \<and>
   checkLimit SvcOpenAI 5000 5001 None =
     (\<lparr>allowed = True, remaining = 10000, resetIn = None\<rparr>, None) \<and>
   count (loadData 0 (increment SvcOpenAI 5000 None) SvcOpenAI) = 1 \<and>
   count (loadData 0 (increment SvcOpenAI 5000 (Some Garbage)) SvcOpenAI) = 1"
proof -
  have h: "(None :: QuotaFile) = None \<or> (None :: QuotaFile) = Some Garbage" by simp
  have g: "Some Garbage = None \<or> Some Garbage = Some Garbage" by simp
  show ?thesis
    using h missing_or_corrupt_file_is_empty_quota
      [where qf = None and now = 5000 and service = SvcOpenAI and loadNow = 5000, OF h]
      missing_or_corrupt_file_is_empty_quota
      [where qf = None and now = 5001 and service = SvcOpenAI and loadNow = 5000, OF h]
      missing_or_corrupt_file_is_empty_quota
      [where qf = "Some Garbage" and now = 5000 and service = SvcOpenAI and loadNow = 5000, OF g]
    by (simp add: loadData_cases)
qed


text \<open>
  Claim C3, as the specification states it, fails when the quota window has expired: the
  quota check that opens every dispatch resets the count before the backend is invoked, so
  a dispatch whose backend fails leaves the counter at 0 where it was 5 before the call.
\<close>

theorem chat_failure_counterexample:
  "count (loadData 0 (Some (Json (\<lambda>s. \<lparr>count = 5, resetAt = 1000\<rparr>))) SvcV0) = 5 \<and>
   outcome (chat
      \<lparr>defaultModel = V0,
       prompts = \<lparr>getOpenAIPrompt = (\<lambda>v. []), getClaudePrompt = (\<lambda>v. []), getV0Prompt = (\<lambda>v. [])\<rparr>,
       chatWithV0 = (\<lambda>ms opts. Inl ''V0 API error: 500''),
       chatWithOpenAI = (\<lambda>ms opts. Inl ''unused''),
       chatWithClaude = (\<lambda>ms opts. Inl ''unused'')\<rparr>
      \<lparr>checkLoadNow = 2000, checkNow = 2000, incrementLoadNow = 2500\<rparr>
      (Some (Json (\<lambda>s. \<lparr>count = 5, resetAt = 1000\<rparr>))) []
      \<lparr>optModel = None, systemPrompt = None, promptVariables = None\<rparr>)
     = Inl ''V0 API error: 500'' \<and>
   count (loadData 0 (quotaFile (chat
      \<lparr>defaultModel = V0,
       prompts = \<lparr>getOpenAIPrompt = (\<lambda>v. []), getClaudePrompt = (\<lambda>v. []), getV0Prompt = (\<lambda>v. [])\<rparr>,
       chatWithV0 = (\<lambda>ms opts. Inl ''V0 API error: 500''),
       chatWithOpenAI = (\<lambda>ms opts. Inl ''unused''),
       chatWithClaude = (\<lambda>ms opts. Inl ''unused'')\<rparr>
      \<lparr>checkLoadNow = 2000, checkNow = 2000, incrementLoadNow = 2500\<rparr>
      (Some (Json (\<lambda>s. \<lparr>count = 5, resetAt = 1000\<rparr>))) []
      \<lparr>optModel = None, systemPrompt = None, promptVariables = None\<rparr>)) SvcV0) = 0"
  by (simp add: chat_def checkLimit_def increment_def loadData_cases saveData_def Let_def
      addSystemPrompt_def)

text \<open>
  Claim C3, amended: a dispatch whose backend invocation fails leaves the quota file
  exactly as its quota check left it (the error propagates, nothing is incremented); one
  whose backend succeeds leaves the counter of the resolved family one above the value the
  quota check left, and the other families as they were. The quota check leaves the file
  unchanged when the window has not expired, and the family's count at 0 when it has.
\<close>

theorem chat_counts_successes_after_check:
  assumes "m = (case optModel options of Some x \<Rightarrow> x | None \<Rightarrow> defaultModel svc)"
    and "s = getServiceForModel m"
    and "chk = checkLimit s (checkLoadNow clock) (checkNow clock) qf"
    and "msgs = addSystemPrompt (prompts svc) m options messages"
    and "run = chat svc clock qf messages options"
  shows
    "(allowed (fst chk) \<and> backendFor svc m msgs options = Inl e \<longrightarrow>
        outcome run = Inl e \<and> quotaFile run = snd chk) \<and>
     (allowed (fst chk) \<and> backendFor svc m msgs options = Inr r \<longrightarrow>
        outcome run = Inr r \<and>
        count (loadData t (quotaFile run) s) = count (loadData t (snd chk) s) + 1 \<and>
        (\<forall>s'. s' \<noteq> s \<longrightarrow>
           loadData t (quotaFile run) s' = loadData (incrementLoadNow clock) (snd chk) s')) \<and>
     (\<not> checkNow clock > resetAt (loadData (checkLoadNow clock) qf s) \<longrightarrow> snd chk = qf) \<and>
     (checkNow clock > resetAt (loadData (checkLoadNow clock) qf s) \<longrightarrow>
        count (loadData t (snd chk) s) = 0)"
proof (intro conjI impI)
  assume a: "allowed (fst chk) \<and> backendFor svc m msgs options = Inl e"
  then show "outcome run = Inl e" "quotaFile run = snd chk"
    using chat_cases(2)[OF assms(1-4), of e] assms(5) by simp_all
next
  assume a: "allowed (fst chk) \<and> backendFor svc m msgs options = Inr r"
  then have run: "run = \<lparr>outcome = Inr r,
      quotaFile = increment s (incrementLoadNow clock) (snd chk), sent = [msgs]\<rparr>"
    using chat_cases(3)[OF assms(1-4), of r] assms(5) by simp
  show "outcome run = Inr r" by (simp add: run)
  show "count (loadData t (quotaFile run) s) = count (loadData t (snd chk) s) + 1"
    by (simp add: run increment_file loadData_cases
        count_loadData_time[of "incrementLoadNow clock" "snd chk" s t])
  show "\<forall>s'. s' \<noteq> s \<longrightarrow>
           loadData t (quotaFile run) s' = loadData (incrementLoadNow clock) (snd chk) s'"
    by (simp add: run increment_file loadData_cases)
next
  assume "\<not> checkNow clock > resetAt (loadData (checkLoadNow clock) qf s)"
  then show "snd chk = qf" by (simp add: assms(3) checkLimit_file)
next
  assume "checkNow clock > resetAt (loadData (checkLoadNow clock) qf s)"
  then show "count (loadData t (snd chk) s) = 0"
    by (simp add: assms(3) checkLimit_file loadData_cases)
qed


theorem chat_counts_successes_after_check_witness:
  "count (loadData 0 (Some (Json (\<lambda>s. \<lparr>count = 5, resetAt = 5000\<rparr>))) SvcV0) = 5 \<and>
   outcome (chat
      \<lparr>defaultModel = V0,
       prompts = \<lparr>getOpenAIPrompt = (\<lambda>v. []), getClaudePrompt = (\<lambda>v. []), getV0Prompt = (\<lambda>v. [])\<rparr>,
       chatWithV0 = (\<lambda>ms opts. Inr ''fine''),
       chatWithOpenAI = (\<lambda>ms opts. Inl ''unused''),
       chatWithClaude = (\<lambda>ms opts. Inl ''unused'')\<rparr>
      \<lparr>checkLoadNow = 2000, checkNow = 2000, incrementLoadNow = 2500\<rparr>
      (Some (Json (\<lambda>s. \<lparr>count = 5, resetAt = 5000\<rparr>))) []
      \<lparr>optModel = None, systemPrompt = None, promptVariables = None\<rparr>)
     = Inr ''fine'' \<and>
   count (loadData 0 (quotaFile (chat
      \<lparr>defaultModel = V0,
       prompts = \<lparr>getOpenAIPrompt = (\<lambda>v. []), getClaudePrompt = (\<lambda>v. []), getV0Prompt = (\<lambda>v. [])\<rparr>,
       chatWithV0 = (\<lambda>ms opts. Inr ''fine''),
       chatWithOpenAI = (\<lambda>ms opts. Inl ''unused''),
       chatWithClaude = (\<lambda>ms opts. Inl ''unused'')\<rparr>
      \<lparr>checkLoadNow = 2000, checkNow = 2000, incrementLoadNow = 2500\<rparr>
      (Some (Json (\<lambda>s. \<lparr>count = 5, resetAt = 5000\<rparr>))) []
      \<lparr>optModel = None, systemPrompt = None, promptVariables = None\<rparr>)) SvcV0) = 6"
proof -
  note t = chat_counts_successes_after_check
    [where svc = "\<lparr>defaultModel = V0,
       prompts = \<lparr>getOpenAIPrompt = (\<lambda>v. []), getClaudePrompt = (\<lambda>v. []), getV0Prompt = (\<lambda>v. [])\<rparr>,
       chatWithV0 = (\<lambda>ms opts. Inr ''fine''),
       chatWithOpenAI = (\<lambda>ms opts. Inl ''unused''),
       chatWithClaude = (\<lambda>ms opts. Inl ''unused'')\<rparr>"
     and clock = "\<lparr>checkLoadNow = 2000, checkNow = 2000, incrementLoadNow = 2500\<rparr>"
     and qf = "Some (Json (\<lambda>s. \<lparr>count = 5, resetAt = 5000\<rparr>))"
     and messages = "[]"
     and options = "\<lparr>optModel = None, systemPrompt = None, promptVariables = None\<rparr>"
     and t = 0 and r = "''fine''" and e = "[]",
     OF refl refl refl refl refl]
  show ?thesis
    using t by (simp add: checkLimit_result checkLimit_file loadData_cases addSystemPrompt_def)
qed


lemma ceilDiv_nonneg: "0 \<le> a \<Longrightarrow> 0 < b \<Longrightarrow> 0 \<le> ceilDiv a b"
  by (simp add: ceilDiv_def div_nonpos_pos_le0)

text \<open>
  Claim C5: a dispatch whose resolved quota family has zero requests remaining in the
  current window fails with the rate-limit error, whose message reports the time until
  the window resets (the seconds until the reset timestamp, rounded up, formatted by
  \<open>formatResetTime\<close>); no backend is invoked and the quota file is unchanged.
\<close>

theorem chat_quota_exceeded:
  assumes "m = (case optModel options of Some x \<Rightarrow> x | None \<Rightarrow> defaultModel svc)"
    and "s = getServiceForModel m"
    and "chk = checkLimit s (checkLoadNow clock) (checkNow clock) qf"
    and "stored = loadData (checkLoadNow clock) qf s"
    and "run = chat svc clock qf messages options"
    and "remaining (fst chk) = 0"
  shows
    "fst chk = \<lparr>allowed = False, remaining = 0,
                resetIn = Some (ceilDiv (resetAt stored - checkNow clock) 1000)\<rparr> \<and>
     0 \<le> ceilDiv (resetAt stored - checkNow clock) 1000 \<and>
     outcome run =
       Inl (''Rate limit exceeded for '' @ serviceName s @ ''. Resets in '' @
            formatResetTime (ceilDiv (resetAt stored - checkNow clock) 1000) @
            ''. Consider using a different model.'') \<and>
     sent run = [] \<and>
     quotaFile run = qf"
proof -
  have ne: "\<not> checkNow clock > resetAt stored"
    using assms(6) daily_pos[of s] by (auto simp: assms(3,4) checkLimit_result)
  then have full: "\<not> count stored < daily (limits s)"
    using assms(6) by (auto simp: assms(3,4) checkLimit_result)
  have r: "fst chk = \<lparr>allowed = False, remaining = 0,
                resetIn = Some (ceilDiv (resetAt stored - checkNow clock) 1000)\<rparr>"
    using ne full by (simp add: assms(3,4) checkLimit_result)
  have f: "snd chk = qf"
    using ne by (simp add: assms(3,4) checkLimit_file)
  have na: "\<not> allowed (fst chk)" by (simp add: r)
  note c = chat_cases(1)[OF assms(1,2,3) refl na, of messages]
  have nn: "0 \<le> ceilDiv (resetAt stored - checkNow clock) 1000"
    using ne by (intro ceilDiv_nonneg) simp_all
  show ?thesis
    using c r f nn by (simp add: assms(5) rateLimitMessage_def)
qed

theorem chat_quota_exceeded_witness:
  "remaining (fst (checkLimit SvcV0 1000 1000
      (Some (Json (\<lambda>s. \<lparr>count = 200, resetAt = 18001000\<rparr>))))) = 0 \<and>
   fst (checkLimit SvcV0 1000 1000 (Some (Json (\<lambda>s. \<lparr>count = 200, resetAt = 18001000\<rparr>)))) =
     \<lparr>allowed = False, remaining = 0, resetIn = Some 18000\<rparr> \<and>
   outcome (chat
      \<lparr>defaultModel = V0,
       prompts = \<lparr>getOpenAIPrompt = (\<lambda>v. []), getClaudePrompt = (\<lambda>v. []), getV0Prompt = (\<lambda>v. [])\<rparr>,
       chatWithV0 = (\<lambda>ms opts. Inr ''fine''),
       chatWithOpenAI = (\<lambda>ms opts. Inr ''fine''),
       chatWithClaude = (\<lambda>ms opts. Inr ''fine'')\<rparr>
      \<lparr>checkLoadNow = 1000, checkNow = 1000, incrementLoadNow = 1500\<rparr>
      (Some (Json (\<lambda>s. \<lparr>count = 200, resetAt = 18001000\<rparr>))) []
      \<lparr>optModel = None, systemPrompt = None, promptVariables = None\<rparr>)
     = Inl ''Rate limit exceeded for v0. Resets in 5h. Consider using a different model.'' \<and>
   sent (chat
      \<lparr>defaultModel = V0,
       prompts = \<lparr>getOpenAIPrompt = (\<lambda>v. []), getClaudePrompt = (\<lambda>v. []), getV0Prompt = (\<lambda>v. [])\<rparr>,
       chatWithV0 = (\<lambda>ms opts. Inr ''fine''),
       chatWithOpenAI = (\<lambda>ms opts. Inr ''fine''),
       chatWithClaude = (\<lambda>ms opts. Inr ''fine'')\<rparr>
      \<lparr>checkLoadNow = 1000, checkNow = 1000, incrementLoadNow = 1500\<rparr>
      (Some (Json (\<lambda>s. \<lparr>count = 200, resetAt = 18001000\<rparr>))) []
      \<lparr>optModel = None, systemPrompt = None, promptVariables = None\<rparr>) = []"
proof -
  have h: "remaining (fst (checkLimit (getServiceForModel
        (case optModel \<lparr>optModel = None, systemPrompt = None, promptVariables = None\<rparr> of
           Some x \<Rightarrow> x
         | None \<Rightarrow> defaultModel \<lparr>defaultModel = V0,
       prompts = \<lparr>getOpenAIPrompt = (\<lambda>v. []), getClaudePrompt = (\<lambda>v. []), getV0Prompt = (\<lambda>v. [])\<rparr>,
       chatWithV0 = (\<lambda>ms opts. Inr ''fine''),
       chatWithOpenAI = (\<lambda>ms opts. Inr ''fine''),
       chatWithClaude = (\<lambda>ms opts. Inr ''fine'')\<rparr>))
      (checkLoadNow \<lparr>checkLoadNow = 1000, checkNow = 1000, incrementLoadNow = 1500\<rparr>)
      (checkNow \<lparr>checkLoadNow = 1000, checkNow = 1000, incrementLoadNow = 1500\<rparr>)
      (Some (Json (\<lambda>s. \<lparr>count = 200, resetAt = 18001000\<rparr>))))) = 0"
    by (simp add: checkLimit_result loadData_cases)
  have fmt: "formatResetTime 18000 = ''5h''"
    by (simp add: formatResetTime_def ceilDiv_def show_int_def show_nat.simps digit_def)
  have cd: "ceilDiv 18000000 1000 = 18000"
    by (simp add: ceilDiv_def)
  note t = chat_quota_exceeded
    [where svc = "\<lparr>defaultModel = V0,
       prompts = \<lparr>getOpenAIPrompt = (\<lambda>v. []), getClaudePrompt = (\<lambda>v. []), getV0Prompt = (\<lambda>v. [])\<rparr>,
       chatWithV0 = (\<lambda>ms opts. Inr ''fine''),
       chatWithOpenAI = (\<lambda>ms opts. Inr ''fine''),
       chatWithClaude = (\<lambda>ms opts. Inr ''fine'')\<rparr>"
     and clock = "\<lparr>checkLoadNow = 1000, checkNow = 1000, incrementLoadNow = 1500\<rparr>"
     and qf = "Some (Json (\<lambda>s. \<lparr>count = 200, resetAt = 18001000\<rparr>))"
     and messages = "[]"
     and options = "\<lparr>optModel = None, systemPrompt = None, promptVariables = None\<rparr>",
     OF refl refl refl refl refl h]
  show ?thesis
    using t h by (simp add: loadData_cases fmt cd)
qed


text \<open>
  Claim C10: in a dispatch with prompt variables and no literal system prompt (none, or
  the empty string), the message sequence handed to the backend is one system message
  holding the prompt chosen for the model, followed by the caller's messages without
  their system messages: the new system message is the only one, and the user and
  assistant messages keep their relative order.
\<close>

theorem chat_system_prompt_replaced:
  assumes "promptVariables options = Some variables"
    and "systemPrompt options = None \<or> systemPrompt options = Some []"
    and "sys = \<lparr>role = System, content = getPromptForModel sp m variables, imageUrl = None\<rparr>"
    and "out = addSystemPrompt sp m options messages"
  shows
    "out = sys # filter (\<lambda>x. role x \<noteq> System) messages \<and>
     filter (\<lambda>x. role x = System) out = [sys] \<and>
     filter (\<lambda>x. role x \<noteq> System) out = filter (\<lambda>x. role x \<noteq> System) messages \<and>
     (allowed (fst (checkLimit
          (getServiceForModel (case optModel options of Some x \<Rightarrow> x | None \<Rightarrow> defaultModel svc))
          (checkLoadNow clock) (checkNow clock) qf)) \<longrightarrow>
        sent (chat svc clock qf messages options) =
          [\<lparr>role = System,
             content = getPromptForModel (prompts svc)
               (case optModel options of Some x \<Rightarrow> x | None \<Rightarrow> defaultModel svc) variables,
             imageUrl = None\<rparr>
           # filter (\<lambda>x. role x \<noteq> System) messages])"
proof -
  have nt: "\<not> truthy (systemPrompt options)"
    using assms(2) by (auto simp: truthy_def)
  have a: "\<And>sp m. addSystemPrompt sp m options messages =
      \<lparr>role = System, content = getPromptForModel sp m variables, imageUrl = None\<rparr>
        # filter (\<lambda>x. role x \<noteq> System) messages"
    using assms(1) nt by (simp add: addSystemPrompt_def)
  have o: "out = sys # filter (\<lambda>x. role x \<noteq> System) messages"
    by (simp add: assms(3,4) a)
  have f1: "filter (\<lambda>x. role x = System) (filter (\<lambda>x. role x \<noteq> System) messages) = []"
    by (induction messages) auto
  have s: "role sys = System" by (simp add: assms(3))
  have snt: "sent (chat svc clock qf messages options) =
      [addSystemPrompt (prompts svc)
         (case optModel options of Some x \<Rightarrow> x | None \<Rightarrow> defaultModel svc) options messages]"
    if "allowed (fst (checkLimit
          (getServiceForModel (case optModel options of Some x \<Rightarrow> x | None \<Rightarrow> defaultModel svc))
          (checkLoadNow clock) (checkNow clock) qf))"
  proof (cases "backendFor svc (case optModel options of Some x \<Rightarrow> x | None \<Rightarrow> defaultModel svc)
        (addSystemPrompt (prompts svc)
         (case optModel options of Some x \<Rightarrow> x | None \<Rightarrow> defaultModel svc) options messages)
        options")
    case (Inl e)
    from chat_cases(2)[OF refl refl refl refl that Inl] show ?thesis by simp
  next
    case (Inr r)
    from chat_cases(3)[OF refl refl refl refl that Inr] show ?thesis by simp
  qed
  show ?thesis
    using snt by (simp add: o f1 s a)
qed

theorem chat_system_prompt_replaced_witness:
  "addSystemPrompt
     \<lparr>getOpenAIPrompt = (\<lambda>v. ''openai prompt''), getClaudePrompt = (\<lambda>v. ''claude prompt''),
      getV0Prompt = (\<lambda>v. ''v0 prompt'')\<rparr>
     Claude3Opus
     \<lparr>optModel = Some Claude3Opus, systemPrompt = None,
      promptVariables = Some \<lparr>url = Some ''https://example.com'', image_path = None,
        extraContext = None, device = None, modelName = None, deep_dive = None,
        extract_styles = None, grid_size = None, batch_id = None\<rparr>\<rparr>
     [\<lparr>role = System, content = ''old one'', imageUrl = None\<rparr>,
      \<lparr>role = User, content = ''review this'', imageUrl = None\<rparr>,
      \<lparr>role = System, content = ''old two'', imageUrl = None\<rparr>,
      \<lparr>role = Assistant, content = ''done'', imageUrl = None\<rparr>]
   = [\<lparr>role = System, content = ''claude prompt'', imageUrl = None\<rparr>,
      \<lparr>role = User, content = ''review this'', imageUrl = None\<rparr>,
      \<lparr>role = Assistant, content = ''done'', imageUrl = None\<rparr>]"
proof -
  have h1: "promptVariables \<lparr>optModel = Some Claude3Opus, systemPrompt = None,
      promptVariables = Some \<lparr>url = Some ''https://example.com'', image_path = None,
        extraContext = None, device = None, modelName = None, deep_dive = None,
        extract_styles = None, grid_size = None, batch_id = None\<rparr>\<rparr>
     = Some \<lparr>url = Some ''https://example.com'', image_path = None,
        extraContext = None, device = None, modelName = None, deep_dive = None,
        extract_styles = None, grid_size = None, batch_id = None\<rparr>"
    by simp
  have h2: "systemPrompt \<lparr>optModel = Some Claude3Opus, systemPrompt = None,
      promptVariables = Some \<lparr>url = Some ''https://example.com'', image_path = None,
        extraContext = None, device = None, modelName = None, deep_dive = None,
        extract_styles = None, grid_size = None, batch_id = None\<rparr>\<rparr> = None \<or>
     systemPrompt \<lparr>optModel = Some Claude3Opus, systemPrompt = None,
      promptVariables = Some \<lparr>url = Some ''https://example.com'', image_path = None,
        extraContext = None, device = None, modelName = None, deep_dive = None,
        extract_styles = None, grid_size = None, batch_id = None\<rparr>\<rparr> = Some []"
    by simp
  note t = chat_system_prompt_replaced
    [where sp = "\<lparr>getOpenAIPrompt = (\<lambda>v. ''openai prompt''),
        getClaudePrompt = (\<lambda>v. ''claude prompt''), getV0Prompt = (\<lambda>v. ''v0 prompt'')\<rparr>"
      and m = Claude3Opus
      and messages = "[\<lparr>role = System, content = ''old one'', imageUrl = None\<rparr>,
      \<lparr>role = User, content = ''review this'', imageUrl = None\<rparr>,
      \<lparr>role = System, content = ''old two'', imageUrl = None\<rparr>,
      \<lparr>role = Assistant, content = ''done'', imageUrl = None\<rparr>]",
      OF h1 h2 refl refl]
  from t have "addSystemPrompt
     \<lparr>getOpenAIPrompt = (\<lambda>v. ''openai prompt''), getClaudePrompt = (\<lambda>v. ''claude prompt''),
      getV0Prompt = (\<lambda>v. ''v0 prompt'')\<rparr>
     Claude3Opus
     \<lparr>optModel = Some Claude3Opus, systemPrompt = None,
      promptVariables = Some \<lparr>url = Some ''https://example.com'', image_path = None,
        extraContext = None, device = None, modelName = None, deep_dive = None,
        extract_styles = None, grid_size = None, batch_id = None\<rparr>\<rparr>
     [\<lparr>role = System, content = ''old one'', imageUrl = None\<rparr>,
      \<lparr>role = User, content = ''review this'', imageUrl = None\<rparr>,
      \<lparr>role = System, content = ''old two'', imageUrl = None\<rparr>,
      \<lparr>role = Assistant, content = ''done'', imageUrl = None\<rparr>]
    = \<lparr>role = System, content = getPromptForModel \<lparr>getOpenAIPrompt = (\<lambda>v. ''openai prompt''),
        getClaudePrompt = (\<lambda>v. ''claude prompt''), getV0Prompt = (\<lambda>v. ''v0 prompt'')\<rparr>
        Claude3Opus \<lparr>url = Some ''https://example.com'', image_path = None,
        extraContext = None, device = None, modelName = None, deep_dive = None,
        extract_styles = None, grid_size = None, batch_id = None\<rparr>, imageUrl = None\<rparr>
      # filter (\<lambda>x. role x \<noteq> System) [\<lparr>role = System, content = ''old one'', imageUrl = None\<rparr>,
      \<lparr>role = User, content = ''review this'', imageUrl = None\<rparr>,
      \<lparr>role = System, content = ''old two'', imageUrl = None\<rparr>,
      \<lparr>role = Assistant, content = ''done'', imageUrl = None\<rparr>]"
    by (rule conjunct1)
  then show ?thesis by simp
qed


end
